theory Spec2Isabelle
  imports Complex_Main "HOL-Library.Multiset"
begin

chapter \<open>VaDER hyperparameter optimisation: cross-validation jobs and the Bayesian optimiser\<close>

text \<open>
  A shallow embedding of \<^verbatim>\<open>vader/hp_opt/abstract_optimization_job.py\<close>,
  \<^verbatim>\<open>vader/hp_opt/full_optimization_job.py\<close> and
  \<^verbatim>\<open>vader/hp_opt/vader_bayesian_optimizer.py\<close>.
  Python exceptions are values of the type \<open>exn\<close>; a function that may raise returns
  \<open>exn + 'a\<close> with \<open>Inl\<close> for the raised exception. Floating-point numbers are
  idealised as \<open>real\<close>, with NaN as a value of its own where the modelled code makes it
  or passes it on (a hyperparameter, a metric of a fold result, a cell of a table).
  External collaborators (the VaDER model, the clustering
  utilities, the random number generators, the trial suggester) are parameters of the
  definitions, so that every theorem holds for each of their possible behaviours.
\<close>

section \<open>The model\<close>

subsection \<open>Exceptions\<close>

text \<open>
  The exception classes the modelled code can meet. \<open>KeyboardInterrupt\<close> stands for the
  exceptions that derive from \<^verbatim>\<open>BaseException\<close> only, which
  \<^verbatim>\<open>except Exception\<close> does not catch.
\<close>

datatype exn =
    ValueError string
  | IndexError string
  | KeyError string
  | TypeError string
  | RuntimeError string
  | KeyboardInterrupt

fun is_Exception :: "exn \<Rightarrow> bool" where
  "is_Exception KeyboardInterrupt = False"
| "is_Exception _ = True"

fun is_ValueError :: "exn \<Rightarrow> bool" where
  "is_ValueError (ValueError _) = True"
| "is_ValueError _ = False"

subsection \<open>Decimal strings: \<^verbatim>\<open>str\<close> and \<^verbatim>\<open>int\<close> on integers\<close>

definition digit_char :: "nat \<Rightarrow> char" where
  "digit_char d = ''0123456789'' ! d"

definition is_digit :: "char \<Rightarrow> bool" where
  "is_digit c = (48 \<le> (of_char c :: nat) \<and> (of_char c :: nat) \<le> 57)"

definition digit_val :: "char \<Rightarrow> nat" where
  "digit_val c = of_char c - 48"

text \<open>\<^verbatim>\<open>str(n)\<close> for \<open>n \<ge> 0\<close>: the decimal digits, most significant first.\<close>

function str_nat :: "nat \<Rightarrow> string" where
  "str_nat n = (if n < 10 then [digit_char n] else str_nat (n div 10) @ [digit_char (n mod 10)])"
  by pat_completeness auto
termination
  by (relation "measure id") auto

declare str_nat.simps [simp del]

text \<open>\<^verbatim>\<open>str(i)\<close> for a Python int: a minus sign in front of a negative number.\<close>

definition str_int :: "int \<Rightarrow> string" where
  "str_int i = (if i < 0 then CHR ''-'' # str_nat (nat (- i)) else str_nat (nat i))"

fun digits_val :: "nat \<Rightarrow> string \<Rightarrow> nat option" where
  "digits_val acc [] = Some acc"
| "digits_val acc (c # cs) =
     (if is_digit c then digits_val (10 * acc + digit_val c) cs else None)"

text \<open>
  \<^verbatim>\<open>int(s)\<close> on the strings the code builds (an optional minus sign and decimal
  digits); anything else raises \<^verbatim>\<open>ValueError\<close>.
\<close>

definition int_of_str :: "string \<Rightarrow> exn + int" where
  "int_of_str s =
     (case s of
        [] \<Rightarrow> Inl (ValueError ''invalid literal for int()'')
      | c # cs \<Rightarrow>
          if c = CHR ''-'' then
            (if cs = [] then Inl (ValueError ''invalid literal for int()'')
             else case digits_val 0 cs of
                    None \<Rightarrow> Inl (ValueError ''invalid literal for int()'')
                  | Some n \<Rightarrow> Inr (- int n))
          else (case digits_val 0 s of
                  None \<Rightarrow> Inl (ValueError ''invalid literal for int()'')
                | Some n \<Rightarrow> Inr (int n)))"

subsection \<open>File paths\<close>

text \<open>\<^verbatim>\<open>os.path.join(a, b)\<close> with two components (POSIX).\<close>

definition os_path_join :: "string \<Rightarrow> string \<Rightarrow> string" where
  "os_path_join a b =
     (if b \<noteq> [] \<and> hd b = CHR ''/'' then b
      else if a = [] \<or> last a = CHR ''/'' then a @ b
      else a @ CHR ''/'' # b)"

text \<open>
  \<^verbatim>\<open>trial_id = f"k{k}_trial{trial.number}"\<close> and the per-trial file
  \<^verbatim>\<open>os.path.join(self.output_trials_dir, f"{trial_id}.csv")\<close> of
  \<^verbatim>\<open>VADERBayesianOptimizer.objective\<close>.
\<close>

definition trial_id :: "int \<Rightarrow> int \<Rightarrow> string" where
  "trial_id k number = ''k'' @ str_int k @ ''_trial'' @ str_int number"

definition trial_file :: "string \<Rightarrow> int \<Rightarrow> int \<Rightarrow> string" where
  "trial_file output_trials_dir k number =
     os_path_join output_trials_dir (trial_id k number @ ''.csv'')"

subsection \<open>The K-fold splitter\<close>

text \<open>
  Modelled from the spec: the seeded, shuffled K-fold partitioner that step 1 of
  \<^verbatim>\<open>run()\<close> calls (\<^verbatim>\<open>KFold(n_splits, shuffle=True, random_state=seed).split(data)\<close>)
  belongs to the scikit-learn library and is not under \<^verbatim>\<open>src/\<close>. The definitions
  below follow the library's algorithm: the shuffled order of the sample indices is cut
  into \<open>n_splits\<close> consecutive blocks, the first \<open>n_samples mod n_splits\<close> of them one
  longer than the others; each block is the validation set of one fold, and both index
  arrays of a fold are returned in increasing order. The shuffled order \<open>shuffled\<close>
  (what the generator seeded with \<open>random_state\<close> makes of \<open>[0..<n_samples]\<close>) is a
  parameter. The splitter raises \<^verbatim>\<open>ValueError\<close> when \<open>n_splits \<le> 1\<close> or when
  there are fewer samples than splits.
\<close>

definition fold_sizes :: "nat \<Rightarrow> nat \<Rightarrow> nat list" where
  "fold_sizes n_splits n_samples =
     map (\<lambda>j. n_samples div n_splits + (if j < n_samples mod n_splits then 1 else 0))
       [0..<n_splits]"

fun iter_test_indices :: "nat list \<Rightarrow> nat list \<Rightarrow> nat list list" where
  "iter_test_indices indices [] = []"
| "iter_test_indices indices (fold_size # sizes) =
     take fold_size indices # iter_test_indices (drop fold_size indices) sizes"

type_synonym fold = "nat list \<times> nat list"

definition KFold_split :: "int \<Rightarrow> nat list \<Rightarrow> nat \<Rightarrow> exn + fold list" where
  "KFold_split n_splits shuffled n_samples =
     (if n_splits \<le> 1 then
        Inl (ValueError ''k-fold cross-validation requires at least one train/test split'')
      else if int n_samples < n_splits then
        Inl (ValueError ''Cannot have number of splits greater than the number of samples'')
      else
        Inr (map (\<lambda>test. (filter (\<lambda>i. i \<notin> set test) [0..<n_samples],
                          filter (\<lambda>i. i \<in> set test) [0..<n_samples]))
               (iter_test_indices shuffled (fold_sizes (nat n_splits) n_samples))))"

text \<open>
  Modelled from the spec: with \<^verbatim>\<open>shuffle=True\<close> the splitter builds its random number
  generator from \<^verbatim>\<open>random_state\<close> when the first fold is asked for, after the checks
  of \<open>n_splits\<close>; the generator (NumPy's \<^verbatim>\<open>RandomState\<close>, also outside \<^verbatim>\<open>src/\<close>)
  accepts \<^verbatim>\<open>None\<close> and the integers from 0 to \<open>2^32 - 1\<close> and raises
  \<^verbatim>\<open>ValueError\<close> on any other integer seed. \<open>KFold_shuffle_split\<close> is
  \<^verbatim>\<open>KFold(n_splits, shuffle=True, random_state=seed).split(data)\<close> as a whole.
\<close>

definition check_random_state :: "int option \<Rightarrow> exn + unit" where
  "check_random_state random_state =
     (case random_state of
        None \<Rightarrow> Inr ()
      | Some s \<Rightarrow>
          if s < 0 \<or> 2 ^ 32 \<le> s then Inl (ValueError ''Seed must be between 0 and 2**32 - 1'')
          else Inr ())"

definition KFold_shuffle_split :: "int \<Rightarrow> int option \<Rightarrow> nat list \<Rightarrow> nat \<Rightarrow> exn + fold list" where
  "KFold_shuffle_split n_splits random_state shuffled n_samples =
     (case KFold_split n_splits shuffled n_samples of
        Inl e \<Rightarrow> Inl e
      | Inr folds \<Rightarrow>
          (case check_random_state random_state of
             Inl e \<Rightarrow> Inl e
           | Inr u \<Rightarrow> Inr folds))"

subsection \<open>Arrays\<close>

text \<open>
  A tensor whose first axis is the sample axis: a list of samples, each sample the list
  of its entries (time steps and features flattened).
\<close>

type_synonym ndarray = "real list list"

definition ndarray_size :: "ndarray \<Rightarrow> nat" where
  "ndarray_size a = length (concat a)"

text \<open>
  The truth value of an array, as \<^verbatim>\<open>if self.weights\<close> asks for it: that of its only
  element when it has one, \<^verbatim>\<open>False\<close> when it is empty, and a
  \<^verbatim>\<open>ValueError\<close> when it has more than one element.
\<close>

definition ambiguous_truth_value :: exn where
  "ambiguous_truth_value =
     ValueError ''The truth value of an array with more than one element is ambiguous''"

definition ndarray_bool :: "ndarray \<Rightarrow> exn + bool" where
  "ndarray_bool a =
     (case concat a of
        [] \<Rightarrow> Inr False
      | [x] \<Rightarrow> Inr (x \<noteq> 0)
      | _ \<Rightarrow> Inl ambiguous_truth_value)"

text \<open>\<^verbatim>\<open>a[index]\<close> with an array of sample indices; an index out of range raises.\<close>

definition ndarray_getitem :: "ndarray \<Rightarrow> nat list \<Rightarrow> exn + ndarray" where
  "ndarray_getitem a index =
     (if list_all (\<lambda>i. i < length a) index then Inr (map (\<lambda>i. a ! i) index)
      else Inl (IndexError ''index is out of bounds for axis 0''))"

subsection \<open>Series and data frames\<close>

text \<open>
  The values of a pandas \<^verbatim>\<open>Series\<close>: a number, a tuple of integers (the
  hyperparameter \<^verbatim>\<open>n_hidden\<close>) or NaN. A Series is the list of its labelled values,
  in order.
\<close>

datatype cell = Num real | Tup "int list" | NaN

type_synonym series = "(string \<times> cell) list"

text \<open>
  A data frame: its column names and its rows, every row aligned with the columns;
  \<open>None\<close> is a missing value.
\<close>

type_synonym 'v dataframe = "string list \<times> 'v option list list"

text \<open>The elements of a list in the order of their first occurrence.\<close>

fun unique :: "'a list \<Rightarrow> 'a list" where
  "unique [] = []"
| "unique (x # xs) = x # unique (filter (\<lambda>y. y \<noteq> x) xs)"

text \<open>
  \<^verbatim>\<open>pd.DataFrame(records)\<close> on a list of dicts or of Series: the columns are the
  labels in the order of their first occurrence, and a record without a label has a
  missing value in that column.
\<close>

definition DataFrame :: "(string \<times> 'v) list list \<Rightarrow> 'v dataframe" where
  "DataFrame records =
     (let columns = unique (concat (map (map fst) records))
      in (columns, map (\<lambda>r. map (map_of r) columns) records))"

text \<open>\<^verbatim>\<open>df[c]\<close>: the values of column \<open>c\<close>, row by row.\<close>

definition df_column :: "'v dataframe \<Rightarrow> string \<Rightarrow> 'v option list" where
  "df_column df c =
     map (\<lambda>row. case map_of (zip (fst df) row) c of None \<Rightarrow> None | Some v \<Rightarrow> v) (snd df)"

text \<open>\<^verbatim>\<open>np.mean\<close> of a list of numbers; of no number at all it is NaN (\<open>None\<close>).\<close>

definition np_mean :: "real list \<Rightarrow> real option" where
  "np_mean xs = (if xs = [] then None else Some (sum_list xs / real (length xs)))"

text \<open>
  A metric is a float: a number, or NaN (\<open>None\<close>). In a data frame of metrics a cell is
  missing, NaN or a number; \<open>float_values\<close> are the numbers of a column.
\<close>

definition float_values :: "real option option list \<Rightarrow> real list" where
  "float_values col = List.map_filter (\<lambda>x. case x of Some (Some v) \<Rightarrow> Some v | _ \<Rightarrow> None) col"

text \<open>
  \<^verbatim>\<open>df.mean()\<close>: per column, the mean of the numbers in it (missing values and NaN are
  skipped); the mean of a column without a number is NaN.
\<close>

definition df_mean :: "real option dataframe \<Rightarrow> (string \<times> real option) list" where
  "df_mean df = map (\<lambda>c. (c, np_mean (float_values (df_column df c)))) (fst df)"

definition cell_of_mean :: "real option \<Rightarrow> cell" where
  "cell_of_mean m = (case m of None \<Rightarrow> NaN | Some v \<Rightarrow> Num v)"

subsection \<open>\<^verbatim>\<open>AbstractOptimizationJob\<close>\<close>

text \<open>
  The settings that a job and the optimiser both hold, under the same names.
\<close>

record settings =
  seed :: "int option"
  n_consensus :: int
  n_epoch :: int
  n_splits :: int
  n_perm :: int

text \<open>
  The fields of a job. \<open>seed\<close> is reassigned by the consensus path of
  \<^verbatim>\<open>FullOptimizationJob\<close>, so a job is passed through the fold steps as state.
  \<open>world\<close> is the state of everything outside the program that a fold step may consult
  (the unseeded random number generators).
\<close>

record 'w job = settings +
  data :: ndarray
  weights :: "ndarray option"
  params_dict :: series
  verbose :: bool
  cv_id :: string
  world :: 'w

text \<open>
  What line 41 binds to \<^verbatim>\<open>W_train\<close> is the value of the conditional expression:
  the pair \<^verbatim>\<open>(self.weights[train_index], self.weights[val_index])\<close> or
  \<^verbatim>\<open>None\<close>. \<^verbatim>\<open>W_val\<close> is bound to the second element of the assigned
  tuple, the literal \<^verbatim>\<open>None\<close>.
\<close>

type_synonym w_train = "(ndarray \<times> ndarray) option"
type_synonym w_val = "ndarray option"

definition split_weights ::
  "ndarray option \<Rightarrow> nat list \<Rightarrow> nat list \<Rightarrow> exn + (w_train \<times> w_val)" where
  "split_weights ws train_index val_index =
     (case ws of
        None \<Rightarrow> Inr (None, None)
      | Some w \<Rightarrow>
          (case ndarray_bool w of
             Inl e \<Rightarrow> Inl e
           | Inr False \<Rightarrow> Inr (None, None)
           | Inr True \<Rightarrow>
               (case ndarray_getitem w train_index of
                  Inl e \<Rightarrow> Inl e
                | Inr wt \<Rightarrow>
                    (case ndarray_getitem w val_index of
                       Inl e \<Rightarrow> Inl e
                     | Inr wv \<Rightarrow> Inr (Some (wt, wv), None)))))"

text \<open>
  A fold result: the dict of metrics that \<^verbatim>\<open>_cv_fold_step\<close> returns. A metric is a
  number, or NaN (\<open>None\<close>).
\<close>

type_synonym fold_result = "(string \<times> real option) list"

text \<open>
  The abstract method \<^verbatim>\<open>_cv_fold_step(X_train, X_val, W_train, W_val)\<close>: it may
  raise, and it may change the job.
\<close>

type_synonym 'w fold_step =
  "'w job \<Rightarrow> ndarray \<Rightarrow> ndarray \<Rightarrow> w_train \<Rightarrow> w_val \<Rightarrow> exn + (fold_result \<times> 'w job)"

text \<open>The arguments of one call of \<^verbatim>\<open>_cv_fold_step\<close>.\<close>

record call =
  X_train :: ndarray
  X_val :: ndarray
  W_train :: w_train
  W_val :: w_val

text \<open>
  The loop of \<^verbatim>\<open>run()\<close> over the folds (lines 39 to 43). Beside the fold results it
  returns the calls of \<^verbatim>\<open>_cv_fold_step\<close> made so far, also when an exception ends
  the loop.
\<close>

fun cv_folds ::
  "'w fold_step \<Rightarrow> fold list \<Rightarrow> 'w job \<Rightarrow> call list \<Rightarrow> fold_result list
     \<Rightarrow> call list \<times> (exn + (fold_result list \<times> 'w job))" where
  "cv_folds step [] job calls cv_folds_results_list = (calls, Inr (cv_folds_results_list, job))"
| "cv_folds step ((train_index, val_index) # data_split) job calls cv_folds_results_list =
     (case ndarray_getitem (data job) train_index of
        Inl e \<Rightarrow> (calls, Inl e)
      | Inr x_train \<Rightarrow>
     (case ndarray_getitem (data job) val_index of
        Inl e \<Rightarrow> (calls, Inl e)
      | Inr x_val \<Rightarrow>
     (case split_weights (weights job) train_index val_index of
        Inl e \<Rightarrow> (calls, Inl e)
      | Inr (w_train, w_val) \<Rightarrow>
     (let c = \<lparr>X_train = x_train, X_val = x_val, W_train = w_train, W_val = w_val\<rparr> in
      case step job x_train x_val w_train w_val of
        Inl e \<Rightarrow> (calls @ [c], Inl e)
      | Inr (cv_fold_result, job') \<Rightarrow>
          cv_folds step data_split job' (calls @ [c]) (cv_folds_results_list @ [cv_fold_result])))))"

text \<open>
  Lines 45 to 48: the per-metric mean of the fold results, appended to the Series of the
  hyperparameters.
\<close>

definition cv_result_series :: "series \<Rightarrow> fold_result list \<Rightarrow> series" where
  "cv_result_series params cv_folds_results_list =
     (let cv_folds_results_df = DataFrame cv_folds_results_list;
          cv_mean_results_series = map (\<lambda>(c, m). (c, cell_of_mean m)) (df_mean cv_folds_results_df);
          cv_params_series = params
      in cv_params_series @ cv_mean_results_series)"

text \<open>
  \<^verbatim>\<open>run()\<close>. The splitter is built with \<^verbatim>\<open>random_state=self.seed\<close>; \<open>shuffled\<close> is
  the order in which its generator, when it accepts the seed, puts the sample indices.
  The result is the list of the calls of \<^verbatim>\<open>_cv_fold_step\<close> that were made and the
  returned row or the raised exception. The logging under \<^verbatim>\<open>self.verbose\<close> changes
  neither.
\<close>

definition run :: "'w fold_step \<Rightarrow> nat list \<Rightarrow> 'w job \<Rightarrow> call list \<times> (exn + series)" where
  "run step shuffled job =
     (case KFold_shuffle_split (n_splits job) (seed job) shuffled (length (data job)) of
        Inl e \<Rightarrow> ([], Inl e)
      | Inr data_split \<Rightarrow>
          (case cv_folds step data_split job [] [] of
             (calls, Inl e) \<Rightarrow> (calls, Inl e)
           | (calls, Inr (cv_folds_results_list, job')) \<Rightarrow>
               (calls, Inr (cv_result_series (params_dict job) cv_folds_results_list))))"

text \<open>The numbers that the fold results report for the metric \<open>m\<close>, in the order of the folds.\<close>

definition metric_values :: "string \<Rightarrow> fold_result list \<Rightarrow> real list" where
  "metric_values m results =
     List.map_filter (\<lambda>r. case map_of r m of Some (Some v) \<Rightarrow> Some v | _ \<Rightarrow> None) results"

subsection \<open>\<^verbatim>\<open>FullOptimizationJob\<close>\<close>

text \<open>\<^verbatim>\<open>d[key]\<close> on a dict; a missing key raises \<^verbatim>\<open>KeyError\<close>.\<close>

definition dict_getitem :: "(string \<times> 'v) list \<Rightarrow> string \<Rightarrow> exn + 'v" where
  "dict_getitem d key = (case map_of d key of None \<Rightarrow> Inl (KeyError key) | Some v \<Rightarrow> Inr v)"

text \<open>\<^verbatim>\<open>xs[-1]\<close>; on an empty list it raises \<^verbatim>\<open>IndexError\<close>.\<close>

definition list_last :: "'a list \<Rightarrow> exn + 'a" where
  "list_last xs = (if xs = [] then Inl (IndexError ''list index out of range'') else Inr (last xs))"

text \<open>
  \<^verbatim>\<open>collections.Counter(xs)\<close>: the elements in the order of their first occurrence,
  each with the number of its occurrences.
\<close>

fun counter_add :: "'a \<Rightarrow> ('a \<times> nat) list \<Rightarrow> ('a \<times> nat) list" where
  "counter_add x [] = [(x, 1)]"
| "counter_add x ((y, n) # c) = (if x = y then (y, Suc n) # c else (y, n) # counter_add x c)"

definition Counter :: "'a list \<Rightarrow> ('a \<times> nat) list" where
  "Counter xs = fold counter_add xs []"

text \<open>
  \<^verbatim>\<open>round(x)\<close> on a float: the nearest integer, and the even one of the two when \<open>x\<close>
  lies halfway between them.
\<close>

definition py_round :: "real \<Rightarrow> int" where
  "py_round x =
     (let f = \<lfloor>x\<rfloor>; d = x - of_int f
      in if d < 1 / 2 then f else if 1 / 2 < d then f + 1 else if even f then f else f + 1)"

text \<open>\<^verbatim>\<open>np.mean\<close> of a list that is not empty.\<close>

definition arith_mean :: "real list \<Rightarrow> real" where
  "arith_mean xs = sum_list xs / real (length xs)"

text \<open>
  A fitted VaDER model, as far as the job reads it: the loss histories, and the methods
  \<^verbatim>\<open>get_loss\<close> and \<^verbatim>\<open>cluster\<close>.
\<close>

record vader =
  reconstruction_loss :: "real list"
  latent_loss :: "real list"
  get_loss :: "ndarray \<Rightarrow> (string \<times> real) list"
  cluster :: "ndarray \<Rightarrow> int list"

text \<open>
  The collaborators of the job. \<open>VADER\<close> stands for building the model from
  \<open>(X_train, W_train, n_hidden, k, seed, learning_rate, batch_size, alpha)\<close>, its
  \<^verbatim>\<open>pre_fit\<close> and its \<^verbatim>\<open>fit\<close> over \<open>n_epoch\<close> epochs: in a world it returns the fitted
  model or raises, and leaves a new world. Its weights argument is what the job passes:
  \<open>Inl\<close> the \<^verbatim>\<open>W_train\<close> of a fold, \<open>Inr\<close> the \<^verbatim>\<open>W_val\<close> of a fold. The other
  fields are the functions of \<^verbatim>\<open>ClusteringUtils\<close>; the permuted metrics draw from the
  world.
\<close>

record 'w model_collaborators =
  VADER :: "'w \<Rightarrow> ndarray \<Rightarrow> w_train + w_val \<Rightarrow> cell \<Rightarrow> cell \<Rightarrow> int option \<Rightarrow> cell \<Rightarrow> cell
             \<Rightarrow> cell \<Rightarrow> int \<Rightarrow> (exn + vader) \<times> 'w"
  cu_consensus_clustering :: "int list list \<Rightarrow> int \<Rightarrow> exn + int list"
  calc_adj_rand_index :: "int list \<Rightarrow> int list \<Rightarrow> real"
  calc_rand_index :: "int list \<Rightarrow> int list \<Rightarrow> real"
  calc_prediction_strength :: "int list \<Rightarrow> int list \<Rightarrow> real"
  calc_permuted_clustering_evaluation_metrics ::
    "'w \<Rightarrow> int list \<Rightarrow> int list \<Rightarrow> int \<Rightarrow> (exn + (string \<times> real) list) \<times> 'w"

text \<open>\<^verbatim>\<open>_fit_vader\<close>: the model is built with the job's current \<^verbatim>\<open>self.seed\<close>.\<close>

definition fit_vader ::
  "'w model_collaborators \<Rightarrow> 'w job \<Rightarrow> ndarray \<Rightarrow> w_train + w_val \<Rightarrow> exn + (vader \<times> 'w job)" where
  "fit_vader ext job x w =
     (case dict_getitem (params_dict job) ''k'' of Inl e \<Rightarrow> Inl e | Inr k \<Rightarrow>
     (case dict_getitem (params_dict job) ''n_hidden'' of Inl e \<Rightarrow> Inl e | Inr n_hidden \<Rightarrow>
     (case dict_getitem (params_dict job) ''learning_rate'' of Inl e \<Rightarrow> Inl e | Inr lr \<Rightarrow>
     (case dict_getitem (params_dict job) ''batch_size'' of Inl e \<Rightarrow> Inl e | Inr bs \<Rightarrow>
     (case dict_getitem (params_dict job) ''alpha'' of Inl e \<Rightarrow> Inl e | Inr alpha \<Rightarrow>
     (case VADER ext (world job) x w n_hidden k (seed job) lr bs alpha (n_epoch job) of
        (Inl e, w') \<Rightarrow> Inl e
      | (Inr model, w') \<Rightarrow> Inr (model, job\<lparr>world := w'\<rparr>)))))))"

text \<open>
  The tuple that \<^verbatim>\<open>_single_clustering\<close> and \<^verbatim>\<open>_consensus_clustering\<close> return:
  \<open>(y_pred, effective_k, train_reconstruction_loss, train_latent_loss,
  test_reconstruction_loss, test_latent_loss)\<close>.
\<close>

type_synonym clustering = "int list \<times> real \<times> real \<times> real \<times> real \<times> real"

definition single_clustering ::
  "'w model_collaborators \<Rightarrow> 'w job \<Rightarrow> ndarray \<Rightarrow> ndarray \<Rightarrow> w_train
     \<Rightarrow> exn + (clustering \<times> 'w job)" where
  "single_clustering ext job x_train x_val w_train =
     (case fit_vader ext job x_train (Inl w_train) of Inl e \<Rightarrow> Inl e | Inr (model, job') \<Rightarrow>
     (let test_loss_dict = get_loss model x_val in
     (case list_last (reconstruction_loss model) of
        Inl e \<Rightarrow> Inl e | Inr train_reconstruction_loss \<Rightarrow>
     (case list_last (latent_loss model) of
        Inl e \<Rightarrow> Inl e | Inr train_latent_loss \<Rightarrow>
     (case dict_getitem test_loss_dict ''reconstruction_loss'' of
        Inl e \<Rightarrow> Inl e | Inr test_reconstruction_loss \<Rightarrow>
     (case dict_getitem test_loss_dict ''latent_loss'' of
        Inl e \<Rightarrow> Inl e | Inr test_latent_loss \<Rightarrow>
     (let effective_k = length (Counter (cluster model x_train));
          y_pred = cluster model x_val
      in Inr ((y_pred, real effective_k, train_reconstruction_loss, train_latent_loss,
               test_reconstruction_loss, test_latent_loss), job'))))))))"

text \<open>
  Line 67 of \<^verbatim>\<open>_consensus_clustering\<close>:
  \<^verbatim>\<open>self.seed = int(str(self.seed) + str(i)) if self.seed else None\<close>. A seed that is
  \<^verbatim>\<open>None\<close> or 0 is false.
\<close>

definition consensus_seed :: "int option \<Rightarrow> nat \<Rightarrow> exn + int option" where
  "consensus_seed sd i =
     (case sd of
        None \<Rightarrow> Inr None
      | Some s \<Rightarrow>
          if s = 0 then Inr None
          else (case int_of_str (str_int s @ str_nat i) of
                  Inl e \<Rightarrow> Inl e
                | Inr v \<Rightarrow> Inr (Some v)))"

text \<open>
  The loop of \<^verbatim>\<open>_consensus_clustering\<close>: each repeat reassigns \<^verbatim>\<open>self.seed\<close> and
  runs \<^verbatim>\<open>_single_clustering\<close> on the job so changed. The six lists of the source are
  kept as one list of the returned tuples.
\<close>

fun consensus_repeats ::
  "'w model_collaborators \<Rightarrow> ndarray \<Rightarrow> ndarray \<Rightarrow> w_train \<Rightarrow> nat list \<Rightarrow> 'w job
     \<Rightarrow> clustering list \<Rightarrow> exn + (clustering list \<times> 'w job)" where
  "consensus_repeats ext x_train x_val w_train [] job repeats = Inr (repeats, job)"
| "consensus_repeats ext x_train x_val w_train (i # rest) job repeats =
     (case consensus_seed (seed job) i of
        Inl e \<Rightarrow> Inl e
      | Inr sd \<Rightarrow>
          (case single_clustering ext (job\<lparr>seed := sd\<rparr>) x_train x_val w_train of
             Inl e \<Rightarrow> Inl e
           | Inr (r, job') \<Rightarrow>
               consensus_repeats ext x_train x_val w_train rest job' (repeats @ [r])))"

text \<open>
  \<^verbatim>\<open>_consensus_clustering\<close>. Of no repeat at all \<^verbatim>\<open>np.mean\<close> is NaN, and
  \<^verbatim>\<open>round(float(effective_k))\<close> then raises \<^verbatim>\<open>ValueError\<close>.
\<close>

definition consensus_clustering ::
  "'w model_collaborators \<Rightarrow> 'w job \<Rightarrow> ndarray \<Rightarrow> ndarray \<Rightarrow> w_train
     \<Rightarrow> exn + (clustering \<times> 'w job)" where
  "consensus_clustering ext job x_train x_val w_train =
     (case consensus_repeats ext x_train x_val w_train [0..<nat (n_consensus job)] job [] of
        Inl e \<Rightarrow> Inl e
      | Inr (repeats, job') \<Rightarrow>
          (let y_pred_repeats = map (\<lambda>(y, ek, trl, tll, terl, tell). y) repeats;
               effective_k_repeats = map (\<lambda>(y, ek, trl, tll, terl, tell). ek) repeats;
               train_reconstruction_loss_repeats = map (\<lambda>(y, ek, trl, tll, terl, tell). trl) repeats;
               train_latent_loss_repeats = map (\<lambda>(y, ek, trl, tll, terl, tell). tll) repeats;
               test_reconstruction_loss_repeats = map (\<lambda>(y, ek, trl, tll, terl, tell). terl) repeats;
               test_latent_loss_repeats = map (\<lambda>(y, ek, trl, tll, terl, tell). tell) repeats
           in if repeats = [] then Inl (ValueError ''cannot convert float NaN to integer'')
              else
                (let effective_k = arith_mean effective_k_repeats in
                 case cu_consensus_clustering ext y_pred_repeats (py_round effective_k) of
                   Inl e \<Rightarrow> Inl e
                 | Inr y_pred \<Rightarrow>
                     Inr ((y_pred, effective_k,
                           arith_mean train_reconstruction_loss_repeats,
                           arith_mean train_latent_loss_repeats,
                           arith_mean test_reconstruction_loss_repeats,
                           arith_mean test_latent_loss_repeats), job'))))"

text \<open>
  The total loss \<^verbatim>\<open>reconstruction_loss + alpha * latent_loss\<close> for the value of the
  hyperparameter \<^verbatim>\<open>alpha\<close>: with a NaN \<^verbatim>\<open>alpha\<close> the total is NaN.
\<close>

definition total_loss :: "cell \<Rightarrow> real \<Rightarrow> real \<Rightarrow> exn + real option" where
  "total_loss alpha reconstruction latent =
     (case alpha of
        Num a \<Rightarrow> Inr (Some (reconstruction + a * latent))
      | NaN \<Rightarrow> Inr None
      | Tup t \<Rightarrow> Inl (TypeError ''unsupported operand type(s)''))"

text \<open>\<^verbatim>\<open>_cv_fold_step\<close>.\<close>

definition cv_fold_step :: "'w model_collaborators \<Rightarrow> 'w fold_step" where
  "cv_fold_step ext job x_train x_val w_train w_val =
     (case (if n_consensus job \<noteq> 0 \<and> 1 < n_consensus job
            then consensus_clustering ext job x_train x_val w_train
            else single_clustering ext job x_train x_val w_train) of
        Inl e \<Rightarrow> Inl e
      | Inr ((y_pred, effective_k, train_reconstruction_loss, train_latent_loss,
              test_reconstruction_loss, test_latent_loss), job1) \<Rightarrow>
     (case dict_getitem (params_dict job1) ''alpha'' of
        Inl e \<Rightarrow> Inl e
      | Inr alpha \<Rightarrow>
     (case total_loss alpha train_reconstruction_loss train_latent_loss of
        Inl e \<Rightarrow> Inl e
      | Inr train_total_loss \<Rightarrow>
     (case total_loss alpha test_reconstruction_loss test_latent_loss of
        Inl e \<Rightarrow> Inl e
      | Inr test_total_loss \<Rightarrow>
     (case fit_vader ext job1 x_val (Inr w_val) of
        Inl e \<Rightarrow> Inl e
      | Inr (model, job2) \<Rightarrow>
     (let y_true = cluster model x_val;
          adj_rand_index = calc_adj_rand_index ext y_pred y_true;
          rand_index = calc_rand_index ext y_pred y_true;
          prediction_strength = calc_prediction_strength ext y_pred y_true in
     (case calc_permuted_clustering_evaluation_metrics ext (world job2) y_pred y_true
             (n_perm job2) of
        (Inl e, w3) \<Rightarrow> Inl e
      | (Inr permuted, w3) \<Rightarrow>
     (case dict_getitem permuted ''rand_index'' of
        Inl e \<Rightarrow> Inl e | Inr rand_index_null \<Rightarrow>
     (case dict_getitem permuted ''adj_rand_index'' of
        Inl e \<Rightarrow> Inl e | Inr adj_rand_index_null \<Rightarrow>
     (case dict_getitem permuted ''prediction_strength'' of
        Inl e \<Rightarrow> Inl e | Inr prediction_strength_null \<Rightarrow>
        Inr ([(''train_reconstruction_loss'', Some train_reconstruction_loss),
              (''train_latent_loss'', Some train_latent_loss),
              (''train_total_loss'', train_total_loss),
              (''test_reconstruction_loss'', Some test_reconstruction_loss),
              (''test_latent_loss'', Some test_latent_loss),
              (''test_total_loss'', test_total_loss),
              (''effective_k'', Some effective_k),
              (''rand_index'', Some rand_index),
              (''rand_index_null'', Some rand_index_null),
              (''adj_rand_index'', Some adj_rand_index),
              (''adj_rand_index_null'', Some adj_rand_index_null),
              (''prediction_strength'', Some prediction_strength),
              (''prediction_strength_null'', Some prediction_strength_null)],
             job2\<lparr>world := w3\<rparr>)))))))))))"

subsection \<open>Files\<close>

text \<open>
  A file holds text or, for a CSV file that the program writes, the data frame that
  \<^verbatim>\<open>to_csv\<close> was given: the serialisation is not modelled. The file system maps paths
  to files.
\<close>

datatype disk_file = Text string | Csv "cell dataframe"

type_synonym fs = "string \<rightharpoonup> disk_file"

text \<open>An entry of \<^verbatim>\<open>os.scandir\<close>.\<close>

record dir_entry =
  path :: string
  is_file :: bool

definition endswith :: "string \<Rightarrow> string \<Rightarrow> bool" where
  "endswith s suffix =
     (length suffix \<le> length s \<and> drop (length s - length suffix) s = suffix)"

text \<open>
  \<^verbatim>\<open>pd.concat(dfs, ignore_index=True)\<close>: the rows of the frames one after the other,
  over the union of their columns; it raises on an empty list.
\<close>

definition pd_concat :: "'v dataframe list \<Rightarrow> exn + 'v dataframe" where
  "pd_concat dfs =
     (if dfs = [] then Inl (ValueError ''No objects to concatenate'')
      else
        let columns = unique (concat (map fst dfs))
        in Inr (columns,
                concat (map (\<lambda>df. map (\<lambda>row. map (\<lambda>c. case map_of (zip (fst df) row) c of
                                                          None \<Rightarrow> None | Some v \<Rightarrow> v) columns)
                                      (snd df)) dfs)))"

text \<open>\<^verbatim>\<open>df.iloc[ii]\<close>: the rows at the positions \<open>ii\<close>.\<close>

definition df_iloc :: "'v dataframe \<Rightarrow> nat list \<Rightarrow> exn + 'v dataframe" where
  "df_iloc df ii =
     (if list_all (\<lambda>i. i < length (snd df)) ii then Inr (fst df, map (\<lambda>i. snd df ! i) ii)
      else Inl (IndexError ''positional indexers are out-of-bounds''))"

text \<open>
  \<^verbatim>\<open>list(range(start, stop, step))\<close> for the calls the code makes, where the three
  arguments are not negative; the code never calls it with step 0.
\<close>

function py_range :: "nat \<Rightarrow> nat \<Rightarrow> nat \<Rightarrow> nat list" where
  "py_range start stop step =
     (if step = 0 \<or> stop \<le> start then [] else start # py_range (start + step) stop step)"
  by pat_completeness auto
termination
  by (relation "measure (\<lambda>(start, stop, step). stop - start)") auto

declare py_range.simps [simp del]

subsection \<open>\<^verbatim>\<open>VADERBayesianOptimizer\<close>\<close>

record optimizer = settings +
  n_trials :: int
  n_proc :: int
  n_repeats :: int
  output_folder :: string
  output_repeats_dir :: string
  output_trials_dir :: string
  failed_jobs_dir :: string

text \<open>The constructor, as far as the fields above go.\<close>

definition VADERBayesianOptimizer ::
  "int \<Rightarrow> int \<Rightarrow> int \<Rightarrow> int \<Rightarrow> int \<Rightarrow> int \<Rightarrow> int \<Rightarrow> int option \<Rightarrow> string \<Rightarrow> optimizer" where
  "VADERBayesianOptimizer repeats proc trials consensus epoch splits perm sd folder =
     \<lparr>seed = sd, n_consensus = consensus, n_epoch = epoch, n_splits = splits, n_perm = perm,
      n_trials = trials, n_proc = proc, n_repeats = repeats, output_folder = folder,
      output_repeats_dir = os_path_join folder ''csv_repeats'',
      output_trials_dir = os_path_join folder ''csv_trials'',
      failed_jobs_dir = os_path_join folder ''failed_jobs''\<rparr>"

subsubsection \<open>Regrouping the trial rows by repeat\<close>

definition repeat_file :: "optimizer \<Rightarrow> nat \<Rightarrow> string" where
  "repeat_file opt i = os_path_join (output_repeats_dir opt) (''repeat_'' @ str_nat i @ ''.csv'')"

text \<open>
  The first loop of \<^verbatim>\<open>__gen_repeats_files_from_trials_files\<close>. \<open>pd_read_csv\<close> is
  \<^verbatim>\<open>pd.read_csv\<close>, outside the modelled code: the data frame that the parser makes of
  the file at a path, or the exception it raises.
\<close>

fun read_trials ::
  "(string \<Rightarrow> exn + cell dataframe) \<Rightarrow> dir_entry list \<Rightarrow> cell dataframe list
     \<Rightarrow> exn + cell dataframe list" where
  "read_trials pd_read_csv [] df_trials_list = Inr df_trials_list"
| "read_trials pd_read_csv (entry # entries) df_trials_list =
     (if is_file entry \<and> endswith (path entry) ''.csv'' then
        (case pd_read_csv (path entry) of
           Inl e \<Rightarrow> Inl e
         | Inr df \<Rightarrow> read_trials pd_read_csv entries (df_trials_list @ [df]))
      else read_trials pd_read_csv entries df_trials_list)"

text \<open>The second loop, over \<^verbatim>\<open>range(self.n_repeats)\<close>.\<close>

fun write_repeats :: "optimizer \<Rightarrow> cell dataframe \<Rightarrow> nat list \<Rightarrow> fs \<Rightarrow> exn + fs" where
  "write_repeats opt df [] files = Inr files"
| "write_repeats opt df (i # rest) files =
     (let ii = py_range i (length (snd df)) (nat (n_repeats opt)) in
      case df_iloc df ii of
        Inl e \<Rightarrow> Inl e
      | Inr part \<Rightarrow> write_repeats opt df rest (files(repeat_file opt i \<mapsto> Csv part)))"

text \<open>
  \<^verbatim>\<open>__gen_repeats_files_from_trials_files\<close>; \<open>entries\<close> is what
  \<^verbatim>\<open>os.scandir(self.output_trials_dir)\<close> lists, in its order.
\<close>

definition gen_repeats_files_from_trials_files ::
  "(string \<Rightarrow> exn + cell dataframe) \<Rightarrow> optimizer \<Rightarrow> dir_entry list \<Rightarrow> fs \<Rightarrow> exn + fs" where
  "gen_repeats_files_from_trials_files pd_read_csv opt entries files =
     (case read_trials pd_read_csv entries [] of
        Inl e \<Rightarrow> Inl e
      | Inr df_trials_list \<Rightarrow>
          (case pd_concat df_trials_list of
             Inl e \<Rightarrow> Inl e
           | Inr df \<Rightarrow> write_repeats opt df [0..<nat (n_repeats opt)] files))"

text \<open>
  What the claim about the regrouping says repeat file \<open>r\<close> holds: the rows of the
  concatenated table at the positions congruent to \<open>r\<close> modulo \<open>n_repeats\<close>. It is used to
  state what \<open>write_repeats\<close> writes.
\<close>

definition repeat_part :: "optimizer \<Rightarrow> 'v dataframe \<Rightarrow> nat \<Rightarrow> 'v dataframe" where
  "repeat_part opt df r =
     (fst df, map (\<lambda>j. snd df ! j)
                (filter (\<lambda>j. j mod nat (n_repeats opt) = r) [0..<length (snd df)]))"

subsubsection \<open>Running the jobs of a trial\<close>

text \<open>
  The collaborators of the optimiser that are outside the modelled code. \<open>uuid4\<close> draws
  the identifier of a new job. \<open>job_run\<close> is \<^verbatim>\<open>job.run()\<close> of the job built by
  \<^verbatim>\<open>run_cv_single_job\<close>: it returns a row or raises, and it changes the world.
  \<open>format_exc\<close> is \<^verbatim>\<open>traceback.format_exc()\<close> for the exception being handled,
  and \<open>repr_dict\<close> formats the hyperparameters in the message.
\<close>

record 'w collaborators =
  uuid4 :: "'w \<Rightarrow> string \<times> 'w"
  job_run :: "'w job \<Rightarrow> (exn + series) \<times> 'w"
  format_exc :: "exn \<Rightarrow> string"
  repr_dict :: "series \<Rightarrow> string"

text \<open>The history of the jobs that ran: the identifier and the outcome of each.\<close>

type_synonym job_log = "(string \<times> (exn + series)) list"

definition error_message :: "'w collaborators \<Rightarrow> string \<Rightarrow> series \<Rightarrow> exn \<Rightarrow> string" where
  "error_message ext cid params e =
     ''Job failed: '' @ cid @ '' and job_params_dict='' @ repr_dict ext params
       @ [CHR 0x0A] @ format_exc ext e"

definition log_file :: "optimizer \<Rightarrow> string \<Rightarrow> string" where
  "log_file opt cid = os_path_join (failed_jobs_dir opt) (cid @ ''.log'')"

text \<open>
  \<^verbatim>\<open>run_cv_single_job\<close>. An exception of the job that \<^verbatim>\<open>except Exception\<close>
  catches is written to the job's log file and the Series of the hyperparameters is
  returned in place of the job's row; any other exception propagates. The job is added
  to the history. The calls of the logger are left out.
\<close>

definition run_cv_single_job ::
  "'w collaborators \<Rightarrow> optimizer \<Rightarrow> ndarray \<Rightarrow> ndarray option \<Rightarrow> series \<Rightarrow> int option
     \<Rightarrow> fs \<Rightarrow> 'w \<Rightarrow> job_log \<Rightarrow> exn + (series \<times> fs \<times> 'w \<times> job_log)" where
  "run_cv_single_job ext opt input_data input_weights params sd files w history =
     (let (cid, w1) = uuid4 ext w;
          job = \<lparr>seed = sd, n_consensus = n_consensus opt, n_epoch = n_epoch opt,
                 n_splits = n_splits opt, n_perm = n_perm opt,
                 data = input_data, weights = input_weights, params_dict = params,
                 verbose = False, cv_id = cid, world = w1\<rparr>;
          (outcome, w2) = job_run ext job;
          history' = history @ [(cid, outcome)]
      in case outcome of
           Inr result \<Rightarrow> Inr (result, files, w2, history')
         | Inl e \<Rightarrow>
             if is_Exception e then
               Inr (params, files(log_file opt cid \<mapsto> Text (error_message ext cid params e)),
                    w2, history')
             else Inl e)"

subsubsection \<open>The objective of a trial\<close>

text \<open>A trial: its number and the values the trial suggester returns for it.\<close>

record trial =
  number :: int
  learning_rate :: real
  batch_size :: int
  n_hidden_1 :: int
  n_hidden_2 :: int

definition objective_params :: "trial \<Rightarrow> int \<Rightarrow> series" where
  "objective_params tr k =
     [(''k'', Num (of_int k)),
      (''n_hidden'', Tup [n_hidden_1 tr, n_hidden_2 tr]),
      (''learning_rate'', Num (learning_rate tr)),
      (''batch_size'', Num (of_int (batch_size tr))),
      (''alpha'', Num 1)]"

text \<open>
  \<^verbatim>\<open>int(str(self.seed) + str(k) + str(trial.number) + str(i)) if self.seed else None\<close>:
  a seed that is \<^verbatim>\<open>None\<close> or 0 is false.
\<close>

definition objective_seed :: "int option \<Rightarrow> int \<Rightarrow> int \<Rightarrow> nat \<Rightarrow> exn + int option" where
  "objective_seed sd k num i =
     (case sd of
        None \<Rightarrow> Inr None
      | Some s \<Rightarrow>
          if s = 0 then Inr None
          else (case int_of_str (str_int s @ str_int k @ str_int num @ str_nat i) of
                  Inl e \<Rightarrow> Inl e
                | Inr v \<Rightarrow> Inr (Some v)))"

text \<open>The loop over \<^verbatim>\<open>range(self.n_repeats)\<close>.\<close>

fun objective_repeats ::
  "'w collaborators \<Rightarrow> optimizer \<Rightarrow> trial \<Rightarrow> int \<Rightarrow> ndarray \<Rightarrow> ndarray option \<Rightarrow> series
     \<Rightarrow> nat list \<Rightarrow> fs \<Rightarrow> 'w \<Rightarrow> job_log \<Rightarrow> series list
     \<Rightarrow> exn + (series list \<times> fs \<times> 'w \<times> job_log)" where
  "objective_repeats ext opt tr k input_data input_weights params [] files w history
       repeats_results = Inr (repeats_results, files, w, history)"
| "objective_repeats ext opt tr k input_data input_weights params (i # rest) files w history
       repeats_results =
     (case objective_seed (seed opt) k (number tr) i of
        Inl e \<Rightarrow> Inl e
      | Inr sd \<Rightarrow>
          (case run_cv_single_job ext opt input_data input_weights params sd files w history of
             Inl e \<Rightarrow> Inl e
           | Inr (result, files', w', history') \<Rightarrow>
               objective_repeats ext opt tr k input_data input_weights params rest files' w'
                 history' (repeats_results @ [result])))"

text \<open>
  \<^verbatim>\<open>Series.mean()\<close> of a column: missing values and NaN are skipped, a value that is
  not a number raises, and the mean of no value is NaN.
\<close>

fun numeric_values :: "cell option list \<Rightarrow> exn + real list" where
  "numeric_values [] = Inr []"
| "numeric_values (None # cs) = numeric_values cs"
| "numeric_values (Some NaN # cs) = numeric_values cs"
| "numeric_values (Some (Tup t) # cs) = Inl (TypeError ''unsupported operand type(s)'')"
| "numeric_values (Some (Num v) # cs) =
     (case numeric_values cs of Inl e \<Rightarrow> Inl e | Inr vs \<Rightarrow> Inr (v # vs))"

definition series_mean :: "cell option list \<Rightarrow> exn + cell" where
  "series_mean col =
     (case numeric_values col of Inl e \<Rightarrow> Inl e | Inr vs \<Rightarrow> Inr (cell_of_mean (np_mean vs)))"

text \<open>
  \<^verbatim>\<open>objective\<close>. The returned score is \<open>None\<close> for Python's \<^verbatim>\<open>None\<close>. Beside the
  score the model returns the file system, the world and the history of the jobs.
\<close>

definition objective ::
  "'w collaborators \<Rightarrow> optimizer \<Rightarrow> trial \<Rightarrow> int \<Rightarrow> ndarray \<Rightarrow> ndarray option \<Rightarrow> fs \<Rightarrow> 'w
     \<Rightarrow> exn + (cell option \<times> fs \<times> 'w \<times> job_log)" where
  "objective ext opt tr k input_data input_weights files w =
     (case objective_repeats ext opt tr k input_data input_weights (objective_params tr k)
             [0..<nat (n_repeats opt)] files w [] [] of
        Inl e \<Rightarrow> Inl e
      | Inr (repeats_results, files1, w1, history) \<Rightarrow>
          (let results_df = DataFrame repeats_results;
               files2 = files1(trial_file (output_trials_dir opt) k (number tr) \<mapsto> Csv results_df)
           in if ''prediction_strength_diff'' \<in> set (fst results_df) then
                (case series_mean (df_column results_df ''prediction_strength_diff'') of
                   Inl e \<Rightarrow> Inl e
                 | Inr score \<Rightarrow> Inr (Some score, files2, w1, history))
              else Inr (None, files2, w1, history)))"

text \<open>
  Two notions used to state what a trial leaves behind: the row that a job of the
  history contributes, and the file system after the failure logs of a history have been
  written in order.
\<close>

definition row_of_outcome :: "series \<Rightarrow> exn + series \<Rightarrow> series" where
  "row_of_outcome params outcome = (case outcome of Inr result \<Rightarrow> result | Inl e \<Rightarrow> params)"

fun failure_logs :: "'w collaborators \<Rightarrow> optimizer \<Rightarrow> series \<Rightarrow> job_log \<Rightarrow> fs \<Rightarrow> fs" where
  "failure_logs ext opt params [] files = files"
| "failure_logs ext opt params ((cid, Inr result) # history) files =
     failure_logs ext opt params history files"
| "failure_logs ext opt params ((cid, Inl e) # history) files =
     failure_logs ext opt params history
       (files(log_file opt cid \<mapsto> Text (error_message ext cid params e)))"

text \<open>The numeric value of a cell of a row, where it has one.\<close>

fun num_value :: "cell option \<Rightarrow> real" where
  "num_value (Some (Num v)) = v"
| "num_value _ = 0"

text \<open>The numbers that the rows carry under the label \<open>c\<close>, in the order of the rows.\<close>

definition column_values :: "string \<Rightarrow> series list \<Rightarrow> real list" where
  "column_values c rows =
     concat (map (\<lambda>row. case map_of row c of Some (Num v) \<Rightarrow> [v] | _ \<Rightarrow> []) rows)"

subsection \<open>Example inputs\<close>

text \<open>
  A fold step that fits nothing and reports the size of the validation fold and a
  constant number of clusters.
\<close>

definition example_step :: "unit fold_step" where
  "example_step job x_train x_val w_train w_val =
     Inr ([(''test_total_loss'', Some (real (length x_val))), (''effective_k'', Some 2)], job)"


text \<open>A job of five samples without weights.\<close>

definition example_job :: "unit job" where
  "example_job =
     \<lparr>seed = Some 7, n_consensus = 1, n_epoch = 10, n_splits = 2, n_perm = 10,
      data = [[1], [2], [3], [4], [5]], weights = None,
      params_dict = [(''k'', Num 2), (''n_hidden'', Tup [32, 8]), (''alpha'', Num 1)],
      verbose = False, cv_id = ''job-0'', world = ()\<rparr>"

text \<open>
  An optimiser with five repeats, and a trials directory with a log file and two trial
  files, which the parser reads as tables of five rows each; any other file is empty
  for the parser.
\<close>

definition example_optimizer :: optimizer where
  "example_optimizer = VADERBayesianOptimizer 5 1 2 1 10 2 10 None ''out''"

definition example_entries :: "dir_entry list" where
  "example_entries =
     [\<lparr>path = ''out/csv_trials/k2_trial0.csv'', is_file = True\<rparr>,
      \<lparr>path = ''out/csv_trials/notes.log'', is_file = True\<rparr>,
      \<lparr>path = ''out/csv_trials/k2_trial1.csv'', is_file = True\<rparr>]"

definition example_read_csv :: "string \<Rightarrow> exn + cell dataframe" where
  "example_read_csv p =
     (if p = ''out/csv_trials/k2_trial0.csv'' then
        Inr ([''score''], [[Some (Num 0)], [Some (Num 1)], [Some (Num 2)], [Some (Num 3)],
                           [Some (Num 4)]])
      else if p = ''out/csv_trials/k2_trial1.csv'' then
        Inr ([''score''], [[Some (Num 5)], [Some (Num 6)], [Some (Num 7)], [Some (Num 8)],
                           [Some (Num 9)]])
      else Inl (ValueError ''No columns to parse from file''))"

text \<open>
  Collaborators for a trial of three repeats: the world is the supply of job
  identifiers, the job with the second identifier raises and the others return a row
  with the scoring column.
\<close>

definition example_ext :: "string list collaborators" where
  "example_ext =
     \<lparr>uuid4 = (\<lambda>w. (hd w, tl w)),
      job_run = (\<lambda>job.
        (if cv_id job = ''job-b'' then Inl (RuntimeError ''forced'')
         else Inr ((''prediction_strength_diff'', Num (real (length (world job))))
                     # params_dict job),
         world job)),
      format_exc = (\<lambda>e. ''Traceback (most recent call last): RuntimeError: forced''),
      repr_dict = (\<lambda>params. ''{...}'')\<rparr>"

definition example_world :: "string list" where
  "example_world = [''job-a'', ''job-b'', ''job-c'']"

definition example_trial :: trial where
  "example_trial =
     \<lparr>number = 0, learning_rate = 1 / 1000, batch_size = 16, n_hidden_1 = 32, n_hidden_2 = 8\<rparr>"

definition example_optimizer3 :: optimizer where
  "example_optimizer3 = VADERBayesianOptimizer 3 1 2 1 10 2 10 None ''out''"

text \<open>
  Collaborators of a job whose world is the list of the seeds that the models have been
  built with: every fit appends its seed. The fitted model puts the sample whose first
  entry is negative in cluster 1 and the others in cluster 0.
\<close>

definition example_vader :: vader where
  "example_vader =
     \<lparr>reconstruction_loss = [3, 2], latent_loss = [1, 1 / 2],
      get_loss = (\<lambda>x. [(''reconstruction_loss'', 4), (''latent_loss'', 1)]),
      cluster = map (\<lambda>sample. if sample \<noteq> [] \<and> hd sample < 0 then 1 else 0)\<rparr>"

definition example_models :: "int option list model_collaborators" where
  "example_models =
     \<lparr>VADER = (\<lambda>w x wt n_hidden k sd lr bs alpha epochs. (Inr example_vader, w @ [sd])),
      cu_consensus_clustering = (\<lambda>ys target_k. Inr (hd ys)),
      calc_adj_rand_index = (\<lambda>a b. 1),
      calc_rand_index = (\<lambda>a b. 1),
      calc_prediction_strength = (\<lambda>a b. 1),
      calc_permuted_clustering_evaluation_metrics = (\<lambda>w a b n.
        (Inr [(''rand_index'', 1 / 2), (''adj_rand_index'', 0), (''prediction_strength'', 1 / 2)],
         w))\<rparr>"

text \<open>
  Collaborators whose fitted model depends on the seed: the model built with the seed 70
  is the one above, and the model built with any other seed has a third cluster, for
  the samples whose first entry is above 2.
\<close>

definition example_vader3 :: vader where
  "example_vader3 =
     example_vader\<lparr>cluster := map (\<lambda>sample. if sample \<noteq> [] \<and> hd sample < 0 then 1
                                             else if sample \<noteq> [] \<and> 2 < hd sample then 2 else 0)\<rparr>"

definition example_seeded_models :: "int option list model_collaborators" where
  "example_seeded_models =
     example_models\<lparr>VADER := (\<lambda>w x wt n_hidden k sd lr bs alpha epochs.
        (Inr (if sd = Some 70 then example_vader else example_vader3), w @ [sd]))\<rparr>"

text \<open>A job of four samples with the base seed 7 and two consensus repeats.\<close>

definition example_full_job :: "int option list job" where
  "example_full_job =
     \<lparr>seed = Some 7, n_consensus = 2, n_epoch = 10, n_splits = 2, n_perm = 10,
      data = [[1], [- 2], [3], [- 4]], weights = None,
      params_dict = [(''k'', Num 2), (''n_hidden'', Tup [32, 8]), (''learning_rate'', Num (1 / 100)),
                     (''batch_size'', Num 16), (''alpha'', Num 1)],
      verbose = False, cv_id = ''job-0'', world = []\<rparr>"

text \<open>Two states of a job that differ at most in the seed and in the world.\<close>

definition same_settings :: "'w job \<Rightarrow> 'w job \<Rightarrow> bool" where
  "same_settings j j' =
     (params_dict j' = params_dict j \<and> n_consensus j' = n_consensus j
      \<and> data j' = data j \<and> weights j' = weights j)"

section \<open>Decimal strings and file names\<close>

lemma less_10_cases:
  "d < 10 \<Longrightarrow> d \<in> {0, 1, 2, 3, 4, 5, 6, 7, 8, 9 :: nat}"
  by auto

lemma is_digit_digit_char: "d < 10 \<Longrightarrow> is_digit (digit_char d)"
  by (drule less_10_cases) (auto simp: is_digit_def digit_char_def)

lemma digit_val_digit_char: "d < 10 \<Longrightarrow> digit_val (digit_char d) = d"
  by (drule less_10_cases) (auto simp: digit_val_def digit_char_def)

lemma digits_val_append:
  "digits_val acc (xs @ ys) =
     (case digits_val acc xs of None \<Rightarrow> None | Some a \<Rightarrow> digits_val a ys)"
  by (induction xs arbitrary: acc) auto

text \<open>Reading the digits of \<open>str_nat n\<close> gives \<open>n\<close> back, so \<open>str_nat\<close> is injective.\<close>

lemma digits_val_str_nat: "digits_val 0 (str_nat n) = Some n"
proof (induction n rule: str_nat.induct)
  case (1 n)
  show ?case
  proof (cases "n < 10")
    case True
    then show ?thesis
      by (subst str_nat.simps) (simp add: is_digit_digit_char digit_val_digit_char)
  next
    case False
    with 1 have "digits_val 0 (str_nat (n div 10)) = Some (n div 10)" by simp
    with False show ?thesis
      by (subst str_nat.simps)
        (simp add: digits_val_append is_digit_digit_char digit_val_digit_char)
  qed
qed

lemma str_nat_inj: "str_nat m = str_nat n \<Longrightarrow> m = n"
  by (metis digits_val_str_nat option.inject)

lemma str_nat_digits: "c \<in> set (str_nat n) \<Longrightarrow> is_digit c"
proof (induction n rule: str_nat.induct)
  case (1 n)
  then show ?case
    by (subst (asm) (2) str_nat.simps) (auto simp: is_digit_digit_char split: if_splits)
qed

lemma str_nat_nonempty: "str_nat n \<noteq> []"
  by (subst str_nat.simps) simp

lemma str_nat_hd_digit: "is_digit (hd (str_nat n))"
  using str_nat_digits [of "hd (str_nat n)" n] str_nat_nonempty [of n] by simp

lemma is_digit_not_special:
  "is_digit c \<Longrightarrow> c \<noteq> CHR ''_'' \<and> c \<noteq> CHR ''-'' \<and> c \<noteq> CHR ''.''"
  by (auto simp: is_digit_def)

lemma str_int_no_underscore: "CHR ''_'' \<notin> set (str_int i)"
proof
  assume "CHR ''_'' \<in> set (str_int i)"
  then have "CHR ''_'' \<in> set (str_nat (nat (- i))) \<or> CHR ''_'' \<in> set (str_nat (nat i))"
    by (auto simp: str_int_def split: if_splits)
  then have "is_digit CHR ''_''"
    by (auto dest: str_nat_digits)
  then show False
    by (simp add: is_digit_def)
qed

lemma str_int_inj: "str_int a = str_int b \<Longrightarrow> a = b"
proof -
  assume eq: "str_int a = str_int b"
  have neg: "CHR ''-'' # str_nat m \<noteq> str_nat n" for m n
    using str_nat_hd_digit [of n] is_digit_not_special by (metis list.sel(1))
  show ?thesis
  proof (cases "a < 0")
    case True
    show ?thesis
    proof (cases "b < 0")
      case True
      with \<open>a < 0\<close> eq have "nat (- a) = nat (- b)"
        by (auto simp: str_int_def dest: str_nat_inj)
      with True \<open>a < 0\<close> show ?thesis by simp
    next
      case False
      with \<open>a < 0\<close> eq neg show ?thesis by (simp add: str_int_def)
    qed
  next
    case False
    show ?thesis
    proof (cases "b < 0")
      case True
      with \<open>\<not> a < 0\<close> eq neg [of "nat (- b)" "nat a"] show ?thesis
        by (simp add: str_int_def)
    next
      case False
      with \<open>\<not> a < 0\<close> eq have "nat a = nat b"
        by (auto simp: str_int_def dest: str_nat_inj)
      with False \<open>\<not> a < 0\<close> show ?thesis by simp
    qed
  qed
qed

text \<open>A string is cut in one way only at the first occurrence of a character.\<close>

lemma split_at_first:
  assumes "xs @ c # r1 = ys @ c # r2" "c \<notin> set xs" "c \<notin> set ys"
  shows "xs = ys \<and> r1 = r2"
proof -
  have "takeWhile (\<lambda>x. x \<noteq> c) (xs @ c # r1) = xs"
    "takeWhile (\<lambda>x. x \<noteq> c) (ys @ c # r2) = ys"
    using assms(2,3) by (auto simp: takeWhile_tail)
  with assms(1) have "xs = ys" by simp
  with assms(1) show ?thesis by simp
qed

lemma trial_id_inj:
  assumes "trial_id k1 n1 = trial_id k2 n2"
  shows "k1 = k2 \<and> n1 = n2"
proof -
  from assms have "str_int k1 @ CHR ''_'' # (''trial'' @ str_int n1)
      = str_int k2 @ CHR ''_'' # (''trial'' @ str_int n2)"
    by (simp add: trial_id_def)
  then have "str_int k1 = str_int k2 \<and> ''trial'' @ str_int n1 = ''trial'' @ str_int n2"
    by (rule split_at_first) (rule str_int_no_underscore)+
  then show ?thesis by (auto dest: str_int_inj)
qed

lemma trial_id_hd: "hd (trial_id k n @ s) = CHR ''k''"
  by (simp add: trial_id_def)

lemma os_path_join_inj:
  assumes "os_path_join d a = os_path_join d b" "hd a \<noteq> CHR ''/''" "hd b \<noteq> CHR ''/''"
  shows "a = b"
  using assms by (auto simp: os_path_join_def split: if_splits)

section \<open>The K-fold splitter partitions the sample indices\<close>

lemma sum_list_fold_sizes: "0 < k \<Longrightarrow> sum_list (fold_sizes k n) = n"
proof -
  assume k: "0 < k"
  have "sum_list (fold_sizes k n) = (\<Sum>j<k. n div k + (if j < n mod k then 1 else 0))"
    by (simp add: fold_sizes_def sum_list_sum_nth atLeast0LessThan)
  also have "\<dots> = k * (n div k) + (\<Sum>j<k. if j < n mod k then 1 else 0)"
    by (simp add: sum.distrib)
  also have "(\<Sum>j<k. if j < n mod k then 1 else 0) = card ({..<k} \<inter> {j. j < n mod k})"
    by (simp add: sum.If_cases Int_def)
  also have "{..<k} \<inter> {j. j < n mod k} = {..<n mod k}"
    using k by (auto intro: less_trans [OF _ mod_less_divisor])
  finally show ?thesis by simp
qed

lemma concat_iter_test_indices:
  "concat (iter_test_indices xs sizes) = take (sum_list sizes) xs"
  by (induction sizes arbitrary: xs) (auto simp: take_add)

lemma length_iter_test_indices: "length (iter_test_indices xs sizes) = length sizes"
  by (induction sizes arbitrary: xs) auto

lemma mset_filter_mem:
  assumes "distinct t" "set t \<subseteq> {0..<n}"
  shows "mset (filter (\<lambda>i. i \<in> set t) [0..<n]) = mset t"
proof -
  have "set (filter (\<lambda>i. i \<in> set t) [0..<n]) = set t"
    using assms(2) by auto
  moreover have "distinct (filter (\<lambda>i. i \<in> set t) [0..<n])"
    by simp
  ultimately show ?thesis
    using assms(1) set_eq_iff_mset_eq_distinct by blast
qed

lemma distinct_concat_unique:
  "distinct (concat xss) \<Longrightarrow> j < length xss \<Longrightarrow> j' < length xss \<Longrightarrow>
     i \<in> set (xss ! j) \<Longrightarrow> i \<in> set (xss ! j') \<Longrightarrow> j = j'"
proof (induction xss arbitrary: j j')
  case Nil
  then show ?case by simp
next
  case (Cons xs xss)
  show ?case
  proof (cases j)
    case 0
    show ?thesis
    proof (cases j')
      case 0
      with \<open>j = 0\<close> show ?thesis by simp
    next
      case (Suc m)
      with Cons.prems 0 have "i \<in> set xs" "i \<in> set (concat xss)"
        by auto
      with Cons.prems(1) show ?thesis by auto
    qed
  next
    case (Suc m)
    show ?thesis
    proof (cases j')
      case 0
      with Cons.prems Suc have "i \<in> set xs" "i \<in> set (concat xss)"
        by auto
      with Cons.prems(1) show ?thesis by auto
    next
      case (Suc m')
      with Cons.prems \<open>j = Suc m\<close> Cons.IH [of m m'] show ?thesis by simp
    qed
  qed
qed

lemma mset_concat_map:
  "(\<And>x. x \<in> set xs \<Longrightarrow> mset (f x) = mset x) \<Longrightarrow> mset (concat (map f xs)) = mset (concat xs)"
  by (induction xs) auto

lemma iter_test_indices_sub:
  "t \<in> set (iter_test_indices xs sizes) \<Longrightarrow> distinct xs \<Longrightarrow> distinct t \<and> set t \<subseteq> set xs"
proof (induction sizes arbitrary: xs)
  case Nil
  then show ?case by simp
next
  case (Cons s sizes)
  from Cons.prems(1) consider "t = take s xs" | "t \<in> set (iter_test_indices (drop s xs) sizes)"
    by auto
  then show ?case
  proof cases
    case 1
    with Cons.prems(2) show ?thesis
      by (auto dest: in_set_takeD)
  next
    case 2
    with Cons.IH [of "drop s xs"] Cons.prems(2)
    have "distinct t \<and> set t \<subseteq> set (drop s xs)" by simp
    then show ?thesis
      by (auto dest: in_set_dropD)
  qed
qed

section \<open>The fold loop of \<^verbatim>\<open>run()\<close>\<close>

lemma split_weights_W_val: "split_weights ws tr va = Inr (wt, wv) \<Longrightarrow> wv = None"
  by (auto simp: split_weights_def split: option.splits sum.splits bool.splits)

lemma split_weights_ambiguous:
  "1 < ndarray_size w \<Longrightarrow> split_weights (Some w) tr va = Inl ambiguous_truth_value"
proof -
  assume "1 < ndarray_size w"
  then obtain x y zs where "concat w = x # y # zs"
    by (cases "concat w"; cases "tl (concat w)") (auto simp: ndarray_size_def)
  then have "ndarray_bool w = Inl ambiguous_truth_value"
    by (simp add: ndarray_bool_def)
  then show ?thesis
    by (simp add: split_weights_def)
qed

lemma cv_folds_W_val:
  "\<forall>c \<in> set calls. W_val c = None \<Longrightarrow>
     \<forall>c \<in> set (fst (cv_folds step data_split job calls acc)). W_val c = None"
proof (induction data_split arbitrary: job calls acc)
  case Nil
  then show ?case by simp
next
  case (Cons f data_split)
  obtain tr va where f: "f = (tr, va)" by (cases f)
  show ?case
  proof (cases "ndarray_getitem (data job) tr")
    case (Inl e)
    with Cons.prems f show ?thesis by simp
  next
    case xt: (Inr x_train)
    show ?thesis
    proof (cases "ndarray_getitem (data job) va")
      case (Inl e)
      with Cons.prems f xt show ?thesis by simp
    next
      case xv: (Inr x_val)
      show ?thesis
      proof (cases "split_weights (weights job) tr va")
        case (Inl e)
        with Cons.prems f xt xv show ?thesis by simp
      next
        case (Inr p)
        obtain wt wv where p: "p = (wt, wv)" by (cases p)
        with Inr have wv: "wv = None" by (auto dest: split_weights_W_val)
        let ?c = "\<lparr>X_train = x_train, X_val = x_val, W_train = wt, W_val = wv\<rparr>"
        have calls': "\<forall>c \<in> set (calls @ [?c]). W_val c = None"
          using Cons.prems wv by simp
        show ?thesis
        proof (cases "step job x_train x_val wt wv")
          case (Inl e)
          with calls' f xt xv Inr p show ?thesis by simp
        next
          case r: (Inr q)
          obtain res job' where q: "q = (res, job')" by (cases q)
          from Cons.IH [OF calls', of job' "acc @ [res]"] f xt xv Inr p r q
          show ?thesis by simp
        qed
      qed
    qed
  qed
qed

lemma run_W_val: "c \<in> set (fst (run step shuffled job)) \<Longrightarrow> W_val c = None"
proof -
  assume c: "c \<in> set (fst (run step shuffled job))"
  show ?thesis
  proof (cases "KFold_shuffle_split (n_splits job) (seed job) shuffled (length (data job))")
    case (Inl e)
    with c show ?thesis by (simp add: run_def)
  next
    case (Inr data_split)
    have "fst (run step shuffled job) = fst (cv_folds step data_split job [] [])"
      using Inr by (auto simp: run_def split: prod.splits sum.splits)
    with c cv_folds_W_val [of "[]" step data_split job "[]"] show ?thesis by simp
  qed
qed

lemma ndarray_getitem_filter:
  "ndarray_getitem a (filter P [0..<length a]) = Inr (map (\<lambda>i. a ! i) (filter P [0..<length a]))"
  by (simp add: ndarray_getitem_def list_all_iff)

lemma KFold_split_valid:
  assumes "2 \<le> k" "k \<le> int n"
  shows "\<exists>test tests. KFold_split k shuffled n =
     Inr ((filter (\<lambda>i. i \<notin> set test) [0..<n], filter (\<lambda>i. i \<in> set test) [0..<n])
          # tests)"
proof -
  have "length (iter_test_indices shuffled (fold_sizes (nat k) n)) = nat k"
    by (simp add: length_iter_test_indices fold_sizes_def)
  with assms(1) obtain test rest where
    "iter_test_indices shuffled (fold_sizes (nat k) n) = test # rest"
    by (cases "iter_test_indices shuffled (fold_sizes (nat k) n)") auto
  with assms have "KFold_split k shuffled n =
     Inr ((filter (\<lambda>i. i \<notin> set test) [0..<n], filter (\<lambda>i. i \<in> set test) [0..<n])
          # map (\<lambda>test. (filter (\<lambda>i. i \<notin> set test) [0..<n],
                          filter (\<lambda>i. i \<in> set test) [0..<n])) rest)"
    by (simp add: KFold_split_def)
  then show ?thesis by blast
qed

lemma KFold_split_invalid:
  assumes "\<not> (2 \<le> k \<and> k \<le> int n)"
  shows "\<exists>msg. KFold_split k shuffled n = Inl (ValueError msg)"
  using assms by (auto simp: KFold_split_def)



lemma KFold_shuffle_split_accepted:
  "check_random_state sd = Inr () \<Longrightarrow> KFold_shuffle_split k sd shuffled n = KFold_split k shuffled n"
  by (cases "KFold_split k shuffled n") (simp_all add: KFold_shuffle_split_def)

lemma check_random_state_rejected:
  "s < 0 \<or> 2 ^ 32 \<le> s \<Longrightarrow>
     check_random_state (Some s) = Inl (ValueError ''Seed must be between 0 and 2**32 - 1'')"
  by (simp add: check_random_state_def)

lemma check_random_state_accepted:
  "sd = None \<or> (\<exists>s. sd = Some s \<and> 0 \<le> s \<and> s < 2 ^ 32) \<Longrightarrow> check_random_state sd = Inr ()"
  by (auto simp: check_random_state_def)
section \<open>Data frames of uniform records and the reduction of the fold results\<close>


lemma set_unique: "set (unique xs) = set xs"
  by (induction xs rule: unique.induct) auto

lemma distinct_unique: "distinct (unique xs)"
  by (induction xs rule: unique.induct) (auto simp: set_unique)


lemma df_column_DataFrame:
  assumes "c \<in> set (fst (DataFrame records))"
  shows "df_column (DataFrame records) c = map (\<lambda>r. map_of r c) records"
  using assms by (simp add: df_column_def DataFrame_def Let_def map_of_zip_map comp_def)





lemma metric_values_NaN:
  assumes "\<forall>r \<in> set records. map_of r c = Some None"
  shows "metric_values c records = []"
  using assms by (induction records) (simp_all add: metric_values_def map_filter_simps)



section \<open>Regrouping by repeat index\<close>

text \<open>\<^verbatim>\<open>range(i, m, n)\<close> lists the positions below \<open>m\<close> that are congruent to \<open>i\<close>.\<close>

lemma mod_gap:
  fixes s j n :: nat
  assumes "s < j" "j < s + n"
  shows "j mod n \<noteq> s mod n"
proof
  assume "j mod n = s mod n"
  then have "n dvd j - s"
    using assms(1) by (simp add: mod_eq_dvd_iff_nat)
  moreover have "0 < j - s" "j - s < n"
    using assms by auto
  ultimately show False
    using nat_dvd_not_less by blast
qed

lemma mod_gap_filter:
  fixes s n m :: nat
  assumes "m \<le> s + n"
  shows "filter (\<lambda>j. j mod n = s mod n) [Suc s..<m] = []"
proof -
  have "j mod n \<noteq> s mod n" if "j \<in> set [Suc s..<m]" for j
    using that assms by (intro mod_gap) auto
  then show ?thesis
    by (auto simp: filter_empty_conv)
qed

lemma upt_split:
  fixes a b c :: nat
  shows "a \<le> b \<Longrightarrow> b \<le> c \<Longrightarrow> [a..<c] = [a..<b] @ [b..<c]"
  by (metis le_add_diff_inverse upt_add_eq_append)

lemma filter_skip:
  fixes s n m :: nat
  assumes "0 < n"
  shows "filter (\<lambda>j. j mod n = s mod n) [Suc s..<m] = filter (\<lambda>j. j mod n = s mod n) [s + n..<m]"
proof (cases "s + n \<le> m")
  case True
  have "[Suc s..<m] = [Suc s..<s + n] @ [s + n..<m]"
    using True assms by (intro upt_split) auto
  moreover have "filter (\<lambda>j. j mod n = s mod n) [Suc s..<s + n] = []"
    by (rule mod_gap_filter) simp
  ultimately show ?thesis by simp
next
  case False
  then have le: "m \<le> s + n" by simp
  then have "filter (\<lambda>j. j mod n = s mod n) [s + n..<m] = []" by simp
  with mod_gap_filter [OF le] show ?thesis by simp
qed

lemma py_range_from:
  "0 < n \<Longrightarrow> py_range s m n = filter (\<lambda>j. j mod n = s mod n) [s..<m]"
proof (induction s m n rule: py_range.induct)
  case (1 start stop step)
  show ?case
  proof (cases "stop \<le> start")
    case True
    then show ?thesis
      by (subst py_range.simps) simp
  next
    case False
    then have "py_range start stop step = start # py_range (start + step) stop step"
      using "1.prems" by (subst py_range.simps) simp
    also have "py_range (start + step) stop step
        = filter (\<lambda>j. j mod step = start mod step) [start + step..<stop]"
      using "1.IH" "1.prems" False by simp
    also have "\<dots> = filter (\<lambda>j. j mod step = start mod step) [Suc start..<stop]"
      using "1.prems" by (simp add: filter_skip)
    finally show ?thesis
      using False by (simp add: upt_conv_Cons)
  qed
qed

lemma py_range_filter:
  "0 < n \<Longrightarrow> i < n \<Longrightarrow> py_range i m n = filter (\<lambda>j. j mod n = i) [0..<m]"
proof -
  assume n: "0 < n" and i: "i < n"
  have "[0..<m] = [0..<min i m] @ [min i m..<m]"
    by (intro upt_split) auto
  moreover have "filter (\<lambda>j. j mod n = i) [0..<min i m] = []"
    using i by (auto simp: filter_empty_conv)
  moreover have "filter (\<lambda>j. j mod n = i) [min i m..<m] = filter (\<lambda>j. j mod n = i) [i..<m]"
    by (cases "i \<le> m") (simp_all add: min_def)
  ultimately have "filter (\<lambda>j. j mod n = i) [0..<m] = filter (\<lambda>j. j mod n = i) [i..<m]"
    by (metis append_Nil filter_append)
  with py_range_from [OF n, of i m] i show ?thesis by simp
qed

lemma df_iloc_py_range:
  assumes "0 < n_repeats opt" "i < nat (n_repeats opt)"
  shows "df_iloc df (py_range i (length (snd df)) (nat (n_repeats opt))) = Inr (repeat_part opt df i)"
  using assms by (simp add: py_range_filter df_iloc_def list_all_iff repeat_part_def)

lemma repeat_file_inj: "repeat_file opt i = repeat_file opt j \<Longrightarrow> i = j"
proof -
  assume "repeat_file opt i = repeat_file opt j"
  then have "''repeat_'' @ str_nat i @ ''.csv'' = ''repeat_'' @ str_nat j @ ''.csv''"
    unfolding repeat_file_def by (rule os_path_join_inj) simp_all
  then show ?thesis
    by (auto dest: str_nat_inj)
qed

lemma write_repeats_lookup:
  assumes "0 < n_repeats opt"
  shows "\<forall>i \<in> set idx. i < nat (n_repeats opt) \<Longrightarrow> distinct idx \<Longrightarrow>
    \<exists>files'. write_repeats opt df idx files = Inr files'
      \<and> (\<forall>r \<in> set idx. files' (repeat_file opt r) = Some (Csv (repeat_part opt df r)))
      \<and> (\<forall>p. p \<notin> repeat_file opt ` set idx \<longrightarrow> files' p = files p)"
proof (induction idx arbitrary: files)
  case Nil
  then show ?case by simp
next
  case (Cons i idx)
  let ?files1 = "files(repeat_file opt i \<mapsto> Csv (repeat_part opt df i))"
  from Cons.prems have i: "i < nat (n_repeats opt)" "i \<notin> set idx"
    and idx: "\<forall>i \<in> set idx. i < nat (n_repeats opt)" "distinct idx"
    by simp_all
  from Cons.IH [OF idx, of ?files1] obtain files' where
    w: "write_repeats opt df idx ?files1 = Inr files'"
    and same: "\<forall>r \<in> set idx. files' (repeat_file opt r) = Some (Csv (repeat_part opt df r))"
    and other: "\<forall>p. p \<notin> repeat_file opt ` set idx \<longrightarrow> files' p = ?files1 p"
    by blast
  have step: "write_repeats opt df (i # idx) files = Inr files'"
    using w i(1) assms by (simp add: df_iloc_py_range)
  have "repeat_file opt i \<notin> repeat_file opt ` set idx"
    using i(2) by (auto dest: repeat_file_inj)
  with other have here: "files' (repeat_file opt i) = Some (Csv (repeat_part opt df i))"
    by simp
  have "files' p = files p" if "p \<notin> repeat_file opt ` set (i # idx)" for p
    using that other by simp
  with step here same show ?case by simp
qed

lemma sum_residues:
  fixes N :: nat
  shows "\<forall>j \<in># A. g j < N \<Longrightarrow>
     (\<Sum>r<N. image_mset f (filter_mset (\<lambda>j. g j = r) A)) = image_mset f A"
proof (induction A)
  case empty
  then show ?case by simp
next
  case (add x A)
  have "(\<Sum>r<N. image_mset f (filter_mset (\<lambda>j. g j = r) (add_mset x A)))
      = (\<Sum>r<N. (if g x = r then {#f x#} else {#}) + image_mset f (filter_mset (\<lambda>j. g j = r) A))"
    by (intro sum.cong) auto
  also have "\<dots> = (\<Sum>r<N. if g x = r then {#f x#} else {#})
      + (\<Sum>r<N. image_mset f (filter_mset (\<lambda>j. g j = r) A))"
    by (simp add: sum.distrib)
  also have "(\<Sum>r<N. if g x = r then {#f x#} else {#}) = {#f x#}"
    using add.prems by simp
  finally show ?case
    using add by simp
qed

lemma rows_redistributed:
  assumes "0 < N"
  shows "(\<Sum>r<N. mset (map (\<lambda>j. rows ! j) (filter (\<lambda>j. j mod N = r) [0..<length rows])))
     = mset rows"
proof -
  have "(\<Sum>r<N. mset (map (\<lambda>j. rows ! j) (filter (\<lambda>j. j mod N = r) [0..<length rows])))
      = (\<Sum>r<N. image_mset (\<lambda>j. rows ! j)
                  (filter_mset (\<lambda>j. j mod N = r) (mset [0..<length rows])))"
    by simp
  also have "\<dots> = image_mset (\<lambda>j. rows ! j) (mset [0..<length rows])"
    using assms by (intro sum_residues) simp
  also have "\<dots> = mset (map (\<lambda>j. rows ! j) [0..<length rows])"
    by simp
  finally show ?thesis
    by (simp add: map_nth)
qed

section \<open>The jobs of a trial\<close>

lemma digits_val_digits:
  "\<forall>c \<in> set cs. is_digit c \<Longrightarrow> \<exists>n. digits_val acc cs = Some n"
  by (induction cs arbitrary: acc) auto

lemma int_of_str_digits:
  assumes "cs \<noteq> []" "\<forall>c \<in> set cs. is_digit c"
  shows "\<exists>v. int_of_str cs = Inr v" "\<exists>v. int_of_str (CHR ''-'' # cs) = Inr v"
proof -
  from assms(2) obtain n where n: "digits_val 0 cs = Some n"
    using digits_val_digits by blast
  from assms obtain c cs' where cs: "cs = c # cs'" "is_digit c"
    by (cases cs) auto
  then have "c \<noteq> CHR ''-''"
    using is_digit_not_special by blast
  with n cs show "\<exists>v. int_of_str cs = Inr v"
    by (simp add: int_of_str_def)
  from n assms(1) show "\<exists>v. int_of_str (CHR ''-'' # cs) = Inr v"
    by (simp add: int_of_str_def)
qed

lemma objective_seed_ok:
  assumes "0 \<le> k" "0 \<le> num"
  shows "\<exists>sd. objective_seed s k num i = Inr sd"
proof (cases s)
  case None
  then show ?thesis by (simp add: objective_seed_def)
next
  case (Some v)
  let ?tail = "str_nat (nat k) @ str_nat (nat num) @ str_nat i"
  have tail: "\<forall>c \<in> set ?tail. is_digit c"
    by (auto dest: str_nat_digits)
  show ?thesis
  proof (cases "v = 0")
    case True
    with Some show ?thesis by (simp add: objective_seed_def)
  next
    case False
    have "\<exists>r. int_of_str (str_int v @ str_int k @ str_int num @ str_nat i) = Inr r"
    proof (cases "v < 0")
      case True
      have "\<exists>r. int_of_str (CHR ''-'' # (str_nat (nat (- v)) @ ?tail)) = Inr r"
        using tail by (intro int_of_str_digits) (auto simp: str_nat_nonempty dest: str_nat_digits)
      with True assms show ?thesis by (simp add: str_int_def)
    next
      case False
      have "\<exists>r. int_of_str (str_nat (nat v) @ ?tail) = Inr r"
        using tail by (intro int_of_str_digits) (auto simp: str_nat_nonempty dest: str_nat_digits)
      with False assms show ?thesis by (simp add: str_int_def)
    qed
    with Some False show ?thesis
      by (auto simp: objective_seed_def)
  qed
qed

lemma run_cv_single_job_cases:
  assumes "\<forall>j e w'. job_run ext j = (Inl e, w') \<longrightarrow> is_Exception e"
  shows "\<exists>cid outcome w'. run_cv_single_job ext opt X W params sd files w history
      = Inr (row_of_outcome params outcome,
             failure_logs ext opt params [(cid, outcome)] files, w', history @ [(cid, outcome)])
      \<and> (\<exists>j. job_run ext j = (outcome, w') \<and> cv_id j = cid \<and> params_dict j = params)"
proof -
  obtain cid w1 where u: "uuid4 ext w = (cid, w1)" by (cases "uuid4 ext w")
  let ?job = "\<lparr>seed = sd, n_consensus = n_consensus opt, n_epoch = n_epoch opt,
                 n_splits = n_splits opt, n_perm = n_perm opt,
                 data = X, weights = W, params_dict = params,
                 verbose = False, cv_id = cid, world = w1\<rparr>"
  obtain outcome w2 where j: "job_run ext ?job = (outcome, w2)" by (cases "job_run ext ?job")
  have ran: "\<exists>j. job_run ext j = (outcome, w2) \<and> cv_id j = cid \<and> params_dict j = params"
    by (rule exI [of _ ?job]) (simp add: j)
  show ?thesis
  proof (cases outcome)
    case (Inl e)
    with assms j have "is_Exception e" by blast
    with u j Inl have "run_cv_single_job ext opt X W params sd files w history
      = Inr (row_of_outcome params outcome,
             failure_logs ext opt params [(cid, outcome)] files, w2, history @ [(cid, outcome)])"
      by (simp add: run_cv_single_job_def row_of_outcome_def)
    with ran show ?thesis by blast
  next
    case (Inr result)
    with u j have "run_cv_single_job ext opt X W params sd files w history
      = Inr (row_of_outcome params outcome,
             failure_logs ext opt params [(cid, outcome)] files, w2, history @ [(cid, outcome)])"
      by (simp add: run_cv_single_job_def row_of_outcome_def)
    with ran show ?thesis by blast
  qed
qed

lemma failure_logs_append:
  "failure_logs ext opt params (h1 @ h2) files
     = failure_logs ext opt params h2 (failure_logs ext opt params h1 files)"
proof (induction h1 arbitrary: files)
  case Nil
  then show ?case by simp
next
  case (Cons j h1)
  obtain cid outcome where j: "j = (cid, outcome)" by (cases j)
  show ?case
    using Cons j by (cases outcome) (simp_all add: fun_upd_def)
qed

lemma objective_repeats_log:
  assumes exc: "\<forall>j e w'. job_run ext j = (Inl e, w') \<longrightarrow> is_Exception e"
    and k: "0 \<le> k" "0 \<le> number tr"
  shows "\<exists>w' new. objective_repeats ext opt tr k X W params idx files w history rows
        = Inr (rows @ map (\<lambda>j. row_of_outcome params (snd j)) new,
               failure_logs ext opt params new files, w', history @ new)
      \<and> length new = length idx
      \<and> (\<forall>h \<in> set new. \<exists>j w2. job_run ext j = (snd h, w2) \<and> cv_id j = fst h \<and> params_dict j = params)"
proof (induction idx arbitrary: files w history rows)
  case Nil
  have "objective_repeats ext opt tr k X W params [] files w history rows
        = Inr (rows @ map (\<lambda>j. row_of_outcome params (snd j)) [],
               failure_logs ext opt params [] files, w, history @ [])"
    by simp
  moreover have "length ([] :: job_log) = length ([] :: nat list)
      \<and> (\<forall>h \<in> set ([] :: job_log). \<exists>j w2. job_run ext j = (snd h, w2) \<and> cv_id j = fst h \<and> params_dict j = params)"
    by simp
  ultimately show ?case by blast
next
  case (Cons i idx)
  from objective_seed_ok [OF k] obtain sd where
    sd: "objective_seed (seed opt) k (number tr) i = Inr sd"
    by blast
  from run_cv_single_job_cases [OF exc] obtain cid outcome w1 where
    one: "run_cv_single_job ext opt X W params sd files w history
      = Inr (row_of_outcome params outcome,
             failure_logs ext opt params [(cid, outcome)] files, w1, history @ [(cid, outcome)])"
    and ran: "\<exists>j. job_run ext j = (outcome, w1) \<and> cv_id j = cid \<and> params_dict j = params"
    by blast
  from Cons.IH obtain w' new where
    rest: "objective_repeats ext opt tr k X W params idx
             (failure_logs ext opt params [(cid, outcome)] files) w1 (history @ [(cid, outcome)])
             (rows @ [row_of_outcome params outcome])
        = Inr ((rows @ [row_of_outcome params outcome])
                 @ map (\<lambda>j. row_of_outcome params (snd j)) new,
               failure_logs ext opt params new (failure_logs ext opt params [(cid, outcome)] files),
               w', (history @ [(cid, outcome)]) @ new)"
    and len: "length new = length idx"
    and jobs: "\<forall>h \<in> set new. \<exists>j w2. job_run ext j = (snd h, w2) \<and> cv_id j = fst h
        \<and> params_dict j = params"
    by blast
  have "objective_repeats ext opt tr k X W params (i # idx) files w history rows
        = Inr (rows @ map (\<lambda>j. row_of_outcome params (snd j)) ((cid, outcome) # new),
               failure_logs ext opt params ((cid, outcome) # new) files, w',
               history @ ((cid, outcome) # new))"
    using sd one rest failure_logs_append [of ext opt params "[(cid, outcome)]" new files]
    by simp
  moreover have "length ((cid, outcome) # new) = length (i # idx)"
    using len by simp
  moreover have "\<forall>h \<in> set ((cid, outcome) # new).
      \<exists>j w2. job_run ext j = (snd h, w2) \<and> cv_id j = fst h \<and> params_dict j = params"
    using ran jobs by auto
  ultimately show ?case by blast
qed

lemma failure_logs_other:
  "p \<notin> (\<lambda>j. log_file opt (fst j)) ` set history \<Longrightarrow>
     failure_logs ext opt params history files p = files p"
proof (induction history arbitrary: files)
  case Nil
  then show ?case by simp
next
  case (Cons j history)
  obtain cid outcome where j: "j = (cid, outcome)" by (cases j)
  show ?case
    using Cons j by (cases outcome) (simp_all add: fun_upd_def)
qed

lemma failure_logs_untouched:
  "p \<notin> (\<lambda>j. log_file opt (fst j)) ` {h \<in> set history. isl (snd h)} \<Longrightarrow>
     failure_logs ext opt params history files p = files p"
proof (induction history arbitrary: files)
  case Nil
  then show ?case by simp
next
  case (Cons j history)
  obtain cid outcome where j: "j = (cid, outcome)" by (cases j)
  from Cons.prems have rest:
    "p \<notin> (\<lambda>j. log_file opt (fst j)) ` {h \<in> set history. isl (snd h)}"
    by auto
  show ?case
  proof (cases outcome)
    case (Inl e)
    have "(cid, Inl e) \<in> {h \<in> set (j # history). isl (snd h)}"
      using j Inl by simp
    then have "log_file opt cid \<in> (\<lambda>j. log_file opt (fst j)) ` {h \<in> set (j # history). isl (snd h)}"
      by (metis (no_types, lifting) fst_conv image_eqI)
    with Cons.prems have "p \<noteq> log_file opt cid" by blast
    with Cons.IH [OF rest] j Inl show ?thesis
      by (simp add: fun_upd_def)
  next
    case (Inr r)
    with Cons.IH [OF rest] j show ?thesis
      by simp
  qed
qed

lemma failure_logs_written:
  "distinct (map (\<lambda>j. log_file opt (fst j)) history) \<Longrightarrow> (cid, Inl e) \<in> set history \<Longrightarrow>
     failure_logs ext opt params history files (log_file opt cid)
       = Some (Text (error_message ext cid params e))"
proof (induction history arbitrary: files)
  case Nil
  then show ?case by simp
next
  case (Cons j history)
  obtain c outcome where j: "j = (c, outcome)" by (cases j)
  from Cons.prems(1) j have d: "distinct (map (\<lambda>j. log_file opt (fst j)) history)"
    and fresh: "log_file opt c \<notin> (\<lambda>j. log_file opt (fst j)) ` set history"
    by simp_all
  show ?case
  proof (cases "(cid, Inl e) = j")
    case True
    with j have "c = cid" "outcome = Inl e" by simp_all
    with j fresh show ?thesis
      by (simp add: failure_logs_other fun_upd_def)
  next
    case False
    with Cons.prems(2) have "(cid, Inl e) \<in> set history" by simp
    from Cons.IH [OF d this] j show ?thesis
      by (cases outcome) (simp_all add: fun_upd_def)
  qed
qed

lemma last_os_path_join: "b \<noteq> [] \<Longrightarrow> last (os_path_join a b) = last b"
  by (simp add: os_path_join_def)

lemma trial_file_not_log_file: "trial_file d k n \<noteq> log_file opt cid"
proof
  assume "trial_file d k n = log_file opt cid"
  then have "last (trial_file d k n) = last (log_file opt cid)" by simp
  then show False
    by (simp add: trial_file_def log_file_def last_os_path_join)
qed

lemma columns_DataFrame:
  "set (fst (DataFrame records)) = (\<Union>r \<in> set records. fst ` set r)"
  by (auto simp: DataFrame_def Let_def set_unique)

lemma rows_DataFrame:
  "snd (DataFrame records) = map (\<lambda>r. map (map_of r) (fst (DataFrame records))) records"
  by (simp add: DataFrame_def Let_def)

lemma numeric_values_column:
  "\<forall>row \<in> set rows. \<forall>t. map_of row c \<noteq> Some (Tup t) \<Longrightarrow>
     numeric_values (map (\<lambda>row. map_of row c) rows) = Inr (column_values c rows)"
proof (induction rows)
  case Nil
  then show ?case by (simp add: column_values_def)
next
  case (Cons row rows)
  then have IH: "numeric_values (map (\<lambda>row. map_of row c) rows) = Inr (column_values c rows)"
    by simp
  show ?case
  proof (cases "map_of row c")
    case None
    with IH show ?thesis by (simp add: column_values_def)
  next
    case (Some v)
    with Cons.prems IH show ?thesis
      by (cases v) (simp_all add: column_values_def)
  qed
qed

lemma column_values_all:
  "\<forall>row \<in> set rows. \<exists>v. map_of row c = Some (Num v) \<Longrightarrow>
     column_values c rows = map (\<lambda>row. num_value (map_of row c)) rows"
  by (induction rows) (auto simp: column_values_def)

lemma objective_repeats_length:
  "objective_repeats ext opt tr k X W params idx files w history rows
     = Inr (rows', files', w', history') \<Longrightarrow>
   length rows' = length rows + length idx"
proof (induction idx arbitrary: files w history rows)
  case Nil
  then show ?case by simp
next
  case (Cons i idx)
  from Cons.prems obtain result files1 w1 history1 where
    "objective_repeats ext opt tr k X W params idx files1 w1 history1 (rows @ [result])
       = Inr (rows', files', w', history')"
    by (auto split: sum.splits)
  from Cons.IH [OF this] show ?case by simp
qed

text \<open>The example trial: three jobs, the second of which fails.\<close>

lemma example_loop:
  "objective_repeats example_ext example_optimizer3 example_trial 2 [[1], [2]] None
       (objective_params example_trial 2) [0..<nat (n_repeats example_optimizer3)]
       Map.empty example_world [] []
   = Inr ([(''prediction_strength_diff'', Num 2) # objective_params example_trial 2,
           objective_params example_trial 2,
           (''prediction_strength_diff'', Num 0) # objective_params example_trial 2],
          [log_file example_optimizer3 ''job-b'' \<mapsto>
             Text (error_message example_ext ''job-b'' (objective_params example_trial 2)
                     (RuntimeError ''forced''))],
          [],
          [(''job-a'', Inr ((''prediction_strength_diff'', Num 2) # objective_params example_trial 2)),
           (''job-b'', Inl (RuntimeError ''forced'')),
           (''job-c'', Inr ((''prediction_strength_diff'', Num 0) # objective_params example_trial 2))])"
proof -
  have n: "[0..<nat (n_repeats example_optimizer3)] = [0, 1, 2]"
    by (simp add: example_optimizer3_def VADERBayesianOptimizer_def upt_rec)
  have s: "seed example_optimizer3 = None"
    by (simp add: example_optimizer3_def VADERBayesianOptimizer_def)
  show ?thesis
    unfolding n
    by (simp add: s objective_seed_def run_cv_single_job_def example_ext_def example_world_def)
qed


text \<open>The same trial when every job fails.\<close>

lemma example_loop_failed:
  "objective_repeats example_ext example_optimizer3 example_trial 2 [[1], [2]] None
       (objective_params example_trial 2) [0..<nat (n_repeats example_optimizer3)]
       Map.empty [''job-b'', ''job-b'', ''job-b''] [] []
   = Inr ([objective_params example_trial 2,
           objective_params example_trial 2,
           objective_params example_trial 2],
          [log_file example_optimizer3 ''job-b'' \<mapsto>
             Text (error_message example_ext ''job-b'' (objective_params example_trial 2)
                     (RuntimeError ''forced''))],
          [],
          [(''job-b'', Inl (RuntimeError ''forced'')),
           (''job-b'', Inl (RuntimeError ''forced'')),
           (''job-b'', Inl (RuntimeError ''forced''))])"
proof -
  have n: "[0..<nat (n_repeats example_optimizer3)] = [0, 1, 2]"
    by (simp add: example_optimizer3_def VADERBayesianOptimizer_def upt_rec)
  have s: "seed example_optimizer3 = None"
    by (simp add: example_optimizer3_def VADERBayesianOptimizer_def)
  show ?thesis
    unfolding n
    by (simp add: s objective_seed_def run_cv_single_job_def example_ext_def)
qed


lemma objective_history:
  assumes "objective_repeats ext opt tr k X W (objective_params tr k)
             [0..<nat (n_repeats opt)] files w [] [] = Inr (rows, files1, w1, history)"
    and "objective ext opt tr k X W files w = Inr (score, files', w', history')"
  shows "history' = history \<and> w' = w1"
  using assms by (auto simp: objective_def Let_def split: if_splits sum.splits)

lemma numeric_values_ok:
  "\<forall>c \<in> set cs. \<forall>t. c \<noteq> Some (Tup t) \<Longrightarrow> \<exists>vs. numeric_values cs = Inr vs"
  by (induction cs rule: numeric_values.induct) auto

section \<open>The seeds of the consensus repeats\<close>

text \<open>
  The example job has base seed 7 and two consensus repeats; every fit of the example
  collaborators appends the seed it was given to the world.
\<close>

lemma example_seeds:
  "consensus_seed (Some 7) 0 = Inr (Some 70)" "consensus_seed (Some 70) 1 = Inr (Some 701)"
  "consensus_seed (Some 701) 0 = Inr (Some 7010)" "consensus_seed (Some 7010) 1 = Inr (Some 70101)"
  by (simp_all add: consensus_seed_def str_int_def str_nat.simps digit_char_def
      int_of_str_def is_digit_def digit_val_def)

lemma example_fit:
  assumes "params_dict j = params_dict example_full_job"
  shows "fit_vader example_models j x w = Inr (example_vader, j\<lparr>world := world j @ [seed j]\<rparr>)"
  by (simp add: fit_vader_def assms example_full_job_def example_models_def dict_getitem_def)

lemma example_single:
  assumes "params_dict j = params_dict example_full_job"
  shows "single_clustering example_models j xt xv wt
           = Inr ((cluster example_vader xv,
                   real (length (Counter (cluster example_vader xt))), 2, 1 / 2, 4, 1),
                  j\<lparr>world := world j @ [seed j]\<rparr>)"
  by (simp add: single_clustering_def example_fit [OF assms] example_vader_def
      dict_getitem_def list_last_def Let_def)

lemma example_consensus:
  assumes p: "params_dict j = params_dict example_full_job" and n: "n_consensus j = 2"
    and s: "consensus_seed (seed j) 0 = Inr s0" "consensus_seed s0 1 = Inr s1"
  shows "\<exists>r j'. consensus_clustering example_models j xt xv wt = Inr (r, j')
           \<and> seed j' = s1 \<and> world j' = world j @ [s0, s1] \<and> same_settings j j'"
proof -
  have idx: "[0..<nat (n_consensus j)] = [0, 1]"
    by (simp add: n upt_rec)
  let ?j0 = "j\<lparr>seed := s0\<rparr>"
  let ?j0' = "?j0\<lparr>world := world ?j0 @ [seed ?j0]\<rparr>"
  let ?j1 = "?j0'\<lparr>seed := s1\<rparr>"
  let ?j1' = "?j1\<lparr>world := world ?j1 @ [seed ?j1]\<rparr>"
  let ?r = "(cluster example_vader xv,
             real (length (Counter (cluster example_vader xt))), 2 :: real, 1 / 2 :: real,
             4 :: real, 1 :: real)"
  have r0: "single_clustering example_models ?j0 xt xv wt = Inr (?r, ?j0')"
    by (rule example_single) (simp add: p)
  have r1: "single_clustering example_models ?j1 xt xv wt = Inr (?r, ?j1')"
    by (rule example_single) (simp add: p)
  have "consensus_repeats example_models xt xv wt [0, 1] j [] = Inr ([?r, ?r], ?j1')"
    using s r0 [simplified] r1 [simplified] by simp
  then have "\<exists>r. consensus_clustering example_models j xt xv wt = Inr (r, ?j1')"
    unfolding consensus_clustering_def idx
    by (simp add: Let_def example_models_def)
  moreover have "seed ?j1' = s1" "world ?j1' = world j @ [s0, s1]" "same_settings j ?j1'"
    by (simp_all add: same_settings_def)
  ultimately show ?thesis by blast
qed

lemma example_fold_step:
  assumes p: "params_dict j = params_dict example_full_job" and n: "n_consensus j = 2"
    and s: "consensus_seed (seed j) 0 = Inr s0" "consensus_seed s0 1 = Inr s1"
  shows "\<exists>res j'. cv_fold_step example_models j xt xv wt wv = Inr (res, j')
           \<and> seed j' = s1 \<and> world j' = world j @ [s0, s1, s1] \<and> same_settings j j'"
proof -
  from example_consensus [OF p n s, of xt xv wt] obtain r j1 where
    r: "consensus_clustering example_models j xt xv wt = Inr (r, j1)"
    and j1: "seed j1 = s1" "world j1 = world j @ [s0, s1]" "same_settings j j1"
    by blast
  obtain y ek trl tll terl tell where t: "r = (y, ek, trl, tll, terl, tell)"
    by (cases r)
  have p1: "params_dict j1 = params_dict example_full_job"
    using j1(3) p by (simp add: same_settings_def)
  let ?j2 = "j1\<lparr>world := world j1 @ [seed j1]\<rparr>"
  have f: "fit_vader example_models j1 xv (Inr wv) = Inr (example_vader, ?j2)"
    by (rule example_fit [OF p1])
  have a: "dict_getitem (params_dict j1) ''alpha'' = Inr (Num 1)"
    by (simp add: p1 example_full_job_def dict_getitem_def)
  have m: "calc_permuted_clustering_evaluation_metrics example_models w a b k
      = (Inr [(''rand_index'', 1 / 2), (''adj_rand_index'', 0), (''prediction_strength'', 1 / 2)], w)"
    for w a b k
    by (simp add: example_models_def)
  have "\<exists>res. cv_fold_step example_models j xt xv wt wv = Inr (res, ?j2\<lparr>world := world ?j2\<rparr>)"
    unfolding cv_fold_step_def
    by (simp add: n r t a f [simplified] m Let_def total_loss_def) (simp add: dict_getitem_def)
  moreover have "seed (?j2\<lparr>world := world ?j2\<rparr>) = s1"
    "world (?j2\<lparr>world := world ?j2\<rparr>) = world j @ [s0, s1, s1]"
    "same_settings j (?j2\<lparr>world := world ?j2\<rparr>)"
    using j1 by (simp_all add: same_settings_def)
  ultimately show ?thesis by blast
qed


lemma example_cv_folds:
  "map_sum id (\<lambda>(results, job'). (world job', seed job'))
        (snd (cv_folds (cv_fold_step example_models) [([1, 3], [0, 2]), ([0, 2], [1, 3])]
                example_full_job [] []))
     = Inr ([Some 70, Some 701, Some 701, Some 7010, Some 70101, Some 70101], Some 70101)"
proof -
  let ?j = example_full_job
  have j: "params_dict ?j = params_dict example_full_job" "n_consensus ?j = 2"
    "seed ?j = Some 7" "world ?j = []" "weights ?j = None"
    "data ?j = [[1], [- 2], [3], [- 4]]"
    by (simp_all add: example_full_job_def)
  have w: "split_weights None a b = Inr (None, None)" for a b
    by (simp add: split_weights_def)
  from example_fold_step [of ?j "Some 70" "Some 701" "[[- 2], [- 4]]" "[[1], [3]]" None None]
    j example_seeds
  obtain res1 j1 where
    s1: "cv_fold_step example_models ?j [[- 2], [- 4]] [[1], [3]] None None = Inr (res1, j1)"
    and j1: "seed j1 = Some 701" "world j1 = [Some 70, Some 701, Some 701]" "same_settings ?j j1"
    by auto
  from j1(3) j have j1': "params_dict j1 = params_dict example_full_job" "n_consensus j1 = 2"
    "weights j1 = None" "data j1 = [[1], [- 2], [3], [- 4]]"
    by (simp_all add: same_settings_def)
  from example_fold_step [of j1 "Some 7010" "Some 70101" "[[1], [3]]" "[[- 2], [- 4]]" None None]
    j1 j1' example_seeds
  obtain res2 j2 where
    s2: "cv_fold_step example_models j1 [[1], [3]] [[- 2], [- 4]] None None = Inr (res2, j2)"
    and j2: "seed j2 = Some 70101"
      "world j2 = [Some 70, Some 701, Some 701, Some 7010, Some 70101, Some 70101]"
    by auto
  have "snd (cv_folds (cv_fold_step example_models) [([1, 3], [0, 2]), ([0, 2], [1, 3])]
                ?j [] []) = Inr ([res1, res2], j2)"
    by (simp add: j j1' ndarray_getitem_def w s1 s2)
  with j2 show ?thesis by simp
qed

section \<open>The consensus loop\<close>

lemma consensus_repeats_results:
  "consensus_repeats ext xt xv wt idx job acc = Inr (repeats, job') \<Longrightarrow>
     list_all P acc \<Longrightarrow>
     (\<And>j j' r. single_clustering ext j xt xv wt = Inr (r, j') \<Longrightarrow> P r) \<Longrightarrow>
     length repeats = length acc + length idx \<and> list_all P repeats"
proof (induction idx arbitrary: job acc)
  case Nil
  then show ?case by simp
next
  case (Cons i idx)
  from Cons.prems(1) obtain sd r job1 where
    one: "single_clustering ext (job\<lparr>seed := sd\<rparr>) xt xv wt = Inr (r, job1)"
    and rest: "consensus_repeats ext xt xv wt idx job1 (acc @ [r]) = Inr (repeats, job')"
    by (auto split: sum.splits)
  from Cons.prems(3) [OF one] Cons.prems(2) have "list_all P (acc @ [r])"
    by simp
  from Cons.IH [OF rest this Cons.prems(3)] show ?case
    by simp
qed

section \<open>The effective number of clusters\<close>

lemma counter_add_keys:
  "map fst (counter_add x c) = (if x \<in> fst ` set c then map fst c else map fst c @ [x])"
  by (induction c) (auto split: if_splits)

lemma fold_counter_add_keys:
  "distinct (map fst acc) \<Longrightarrow>
     distinct (map fst (fold counter_add xs acc))
     \<and> set (map fst (fold counter_add xs acc)) = set (map fst acc) \<union> set xs"
proof (induction xs arbitrary: acc)
  case Nil
  then show ?case by simp
next
  case (Cons x xs)
  have "distinct (map fst (counter_add x acc))"
    using Cons.prems by (simp add: counter_add_keys)
  from Cons.IH [OF this] show ?case
    by (auto simp: counter_add_keys split: if_splits)
qed

lemma length_Counter: "length (Counter xs) = card (set xs)"
proof -
  have "distinct (map fst (Counter xs))" "set (map fst (Counter xs)) = set xs"
    using fold_counter_add_keys [of "[]" xs] by (simp_all add: Counter_def)
  then have "card (set xs) = length (map fst (Counter xs))"
    by (metis distinct_card)
  then show ?thesis by simp
qed

lemma fit_vader_VADER:
  "fit_vader ext j x w = Inr (model, j') \<Longrightarrow>
     \<exists>w0 nh k sd lr bs al ne w'. VADER ext w0 x w nh k sd lr bs al ne = (Inr model, w')"
  unfolding fit_vader_def
  by (auto split: sum.splits prod.splits) blast

lemma single_clustering_effective_k:
  "single_clustering ext j xt xv wt = Inr ((y, ek, rest), j') \<Longrightarrow>
     \<exists>model. fit_vader ext j xt (Inl wt) = Inr (model, j')
       \<and> ek = real (card (set (cluster model xt)))"
  unfolding single_clustering_def
  by (auto simp: Let_def length_Counter split: sum.splits prod.splits)

lemma arith_mean_bounds:
  assumes "xs \<noteq> []" "\<forall>x \<in> set xs. a \<le> x \<and> x \<le> b"
  shows "a \<le> arith_mean xs \<and> arith_mean xs \<le> b"
proof -
  have "sum_list (map (\<lambda>x. a) xs) \<le> sum_list xs" "sum_list xs \<le> sum_list (map (\<lambda>x. b) xs)"
    using assms(2) by (induction xs) (auto simp: add_mono)
  then have "real (length xs) * a \<le> sum_list xs" "sum_list xs \<le> real (length xs) * b"
    by (simp_all add: sum_list_replicate map_replicate_const)
  moreover have "0 < real (length xs)"
    using assms(1) by simp
  ultimately show ?thesis
    unfolding arith_mean_def
    by (simp add: pos_le_divide_eq pos_divide_le_eq mult.commute)
qed

lemma cv_fold_step_effective_k:
  assumes "cv_fold_step ext job xt xv wt wv = Inr (res, job')"
  shows "\<exists>y ek rest j1.
     (if n_consensus job \<noteq> 0 \<and> 1 < n_consensus job
      then consensus_clustering ext job xt xv wt
      else single_clustering ext job xt xv wt) = Inr ((y, ek, rest), j1)
     \<and> map_of res ''effective_k'' = Some (Some ek)"
proof -
  let ?c = "if n_consensus job \<noteq> 0 \<and> 1 < n_consensus job
      then consensus_clustering ext job xt xv wt
      else single_clustering ext job xt xv wt"
  from assms obtain r j1 where c: "?c = Inr (r, j1)"
    unfolding cv_fold_step_def by (cases ?c) auto
  obtain y ek trl tll terl tell where r: "r = (y, ek, trl, tll, terl, tell)"
    by (cases r)
  from assms have "map_of res ''effective_k'' = Some (Some ek)"
    unfolding cv_fold_step_def c r
    by (auto simp: Let_def split: sum.splits prod.splits cell.splits)
  with c r show ?thesis by blast
qed

lemma single_clustering_bounds:
  assumes model: "\<forall>w x wa nh k sd lr bs al ne m w'.
        VADER ext w x wa nh k sd lr bs al ne = (Inr m, w') \<longrightarrow>
        length (cluster m x) = length x \<and> set (cluster m x) \<subseteq> ids"
    and ids: "finite ids" "card ids \<le> K"
    and train: "xt \<noteq> []"
    and single: "single_clustering ext j xt xv wt = Inr ((y, ek, rest), j')"
  shows "1 \<le> ek \<and> ek \<le> real K"
proof -
  from single_clustering_effective_k [OF single] obtain m where
    fit: "fit_vader ext j xt (Inl wt) = Inr (m, j')"
    and ek: "ek = real (card (set (cluster m xt)))"
    by blast
  from fit_vader_VADER [OF fit] model have
    len: "length (cluster m xt) = length xt" and sub: "set (cluster m xt) \<subseteq> ids"
    by blast+
  from len train have "set (cluster m xt) \<noteq> {}" by auto
  then have "1 \<le> card (set (cluster m xt))"
    by (simp add: Suc_leI card_gt_0_iff)
  moreover have "card (set (cluster m xt)) \<le> K"
    using sub ids by (meson card_mono le_trans)
  ultimately show ?thesis
    using ek by simp
qed

lemma consensus_clustering_bounds:
  assumes model: "\<forall>w x wa nh k sd lr bs al ne m w'.
        VADER ext w x wa nh k sd lr bs al ne = (Inr m, w') \<longrightarrow>
        length (cluster m x) = length x \<and> set (cluster m x) \<subseteq> ids"
    and ids: "finite ids" "card ids \<le> K"
    and train: "xt \<noteq> []"
    and cons: "consensus_clustering ext job xt xv wt = Inr ((y, ek, rest), j')"
  shows "1 \<le> ek \<and> ek \<le> real K"
proof -
  let ?P = "\<lambda>r :: clustering. 1 \<le> fst (snd r) \<and> fst (snd r) \<le> real K"
  from cons obtain repeats j1 where
    loop: "consensus_repeats ext xt xv wt [0..<nat (n_consensus job)] job [] = Inr (repeats, j1)"
    unfolding consensus_clustering_def by (auto split: sum.splits)
  from cons loop have ne: "repeats \<noteq> []"
    and ek: "ek = arith_mean (map (\<lambda>(y, ek, trl, tll, terl, tell). ek) repeats)"
    unfolding consensus_clustering_def
    by (auto simp: Let_def split: sum.splits if_splits)
  have "length repeats = length ([] :: clustering list) + length [0..<nat (n_consensus job)]
      \<and> list_all ?P repeats"
  proof (rule consensus_repeats_results [OF loop])
    show "list_all ?P []" by simp
  next
    fix j j' r assume s: "single_clustering ext j xt xv wt = Inr (r, j')"
    obtain y0 ek0 rest0 where r: "r = (y0, ek0, rest0)" by (cases r)
    from single_clustering_bounds [OF model ids train s [unfolded r]] r
    show "?P r" by simp
  qed
  then have "\<forall>x \<in> set (map (\<lambda>(y, ek, trl, tll, terl, tell). ek) repeats). 1 \<le> x \<and> x \<le> real K"
    by (auto simp: list_all_iff)
  with arith_mean_bounds [of "map (\<lambda>(y, ek, trl, tll, terl, tell). ek) repeats" 1 "real K"] ne ek
  show ?thesis by simp
qed


lemma consensus_clustering_repeats:
  assumes cons: "consensus_clustering ext job xt xv wt = Inr ((y, ek, rest), j')"
  shows "\<exists>repeats j1.
     consensus_repeats ext xt xv wt [0..<nat (n_consensus job)] job [] = Inr (repeats, j1)
     \<and> length repeats = nat (n_consensus job)
     \<and> list_all (\<lambda>(y, ek, trl, tll, terl, tell).
           \<exists>j m j'. fit_vader ext j xt (Inl wt) = Inr (m, j')
             \<and> ek = real (card (set (cluster m xt)))) repeats
     \<and> ek = sum_list (map (\<lambda>(y, ek, trl, tll, terl, tell). ek) repeats)
              / real (nat (n_consensus job))"
proof -
  let ?P = "\<lambda>(y, ek, trl, tll, terl, tell).
           \<exists>j m j'. fit_vader ext j xt (Inl wt) = Inr (m, j')
             \<and> ek = real (card (set (cluster m xt)))"
  from cons obtain repeats j1 where
    loop: "consensus_repeats ext xt xv wt [0..<nat (n_consensus job)] job [] = Inr (repeats, j1)"
    unfolding consensus_clustering_def by (auto split: sum.splits)
  from cons loop have
    ek: "ek = arith_mean (map (\<lambda>(y, ek, trl, tll, terl, tell). ek) repeats)"
    unfolding consensus_clustering_def
    by (auto simp: Let_def split: sum.splits if_splits)
  have "length repeats = length ([] :: clustering list) + length [0..<nat (n_consensus job)]
      \<and> list_all ?P repeats"
  proof (rule consensus_repeats_results [OF loop])
    show "list_all ?P []" by simp
  next
    fix j j' r assume s: "single_clustering ext j xt xv wt = Inr (r, j')"
    obtain y0 ek0 trl tll terl tell where r: "r = (y0, ek0, trl, tll, terl, tell)"
      by (cases r)
    from single_clustering_effective_k [OF s [unfolded r]] r
    show "?P r" by auto
  qed
  then have len: "length repeats = nat (n_consensus job)" and all: "list_all ?P repeats"
    by simp_all
  from ek len have "ek = sum_list (map (\<lambda>(y, ek, trl, tll, terl, tell). ek) repeats)
              / real (nat (n_consensus job))"
    by (simp add: arith_mean_def)
  with loop len all show ?thesis by blast
qed

lemma example_labels:
  "cluster example_vader [[1], [- 4]] = [0, 1]"
  "real (length (Counter (cluster example_vader [[- 2], [3]]))) = 2"
  "cluster example_vader [[- 2], [3]] = [1, 0]"
  by (simp_all add: example_vader_def Counter_def)

lemma example_fold_step_single:
  assumes p: "params_dict j = params_dict example_full_job" and n: "n_consensus j = 1"
  shows "\<exists>res j'. cv_fold_step example_models j xt xv wt wv = Inr (res, j')"
proof -
  let ?j1 = "j\<lparr>world := world j @ [seed j]\<rparr>"
  let ?j2 = "?j1\<lparr>world := world ?j1 @ [seed ?j1]\<rparr>"
  have r: "single_clustering example_models j xt xv wt
           = Inr ((cluster example_vader xv,
                   real (length (Counter (cluster example_vader xt))), 2, 1 / 2, 4, 1), ?j1)"
    by (rule example_single [OF p])
  have f: "fit_vader example_models ?j1 xv (Inr wv) = Inr (example_vader, ?j2)"
    by (rule example_fit) (simp add: p)
  have a: "dict_getitem (params_dict j) ''alpha'' = Inr (Num 1)"
    by (simp add: p example_full_job_def dict_getitem_def)
  have m: "calc_permuted_clustering_evaluation_metrics example_models w a b k
      = (Inr [(''rand_index'', 1 / 2), (''adj_rand_index'', 0), (''prediction_strength'', 1 / 2)], w)"
    for w a b k
    by (simp add: example_models_def)
  show ?thesis
    unfolding cv_fold_step_def
    by (simp add: n r a f [simplified] m Let_def total_loss_def) (simp add: dict_getitem_def)
qed


text \<open>The example job with the collaborators whose model depends on the seed.\<close>

lemma seeded_fit:
  assumes "params_dict j = params_dict example_full_job"
  shows "fit_vader example_seeded_models j x w
     = Inr (if seed j = Some 70 then example_vader else example_vader3,
            j\<lparr>world := world j @ [seed j]\<rparr>)"
  by (simp add: fit_vader_def assms example_full_job_def example_seeded_models_def
      example_models_def dict_getitem_def)

lemma seeded_single:
  assumes "params_dict j = params_dict example_full_job"
  shows "single_clustering example_seeded_models j xt xv wt
           = Inr ((cluster (if seed j = Some 70 then example_vader else example_vader3) xv,
                   real (length (Counter
                     (cluster (if seed j = Some 70 then example_vader else example_vader3) xt))),
                   2, 1 / 2, 4, 1),
                  j\<lparr>world := world j @ [seed j]\<rparr>)"
  by (simp add: single_clustering_def seeded_fit [OF assms] example_vader_def example_vader3_def
      dict_getitem_def list_last_def Let_def)

lemma seeded_labels:
  "real (length (Counter (cluster example_vader [[- 2], [3], [1]]))) = 2"
  "real (length (Counter (cluster example_vader3 [[- 2], [3], [1]]))) = 3"
  "cluster example_vader [[- 2], [3], [1]] = [1, 0, 0]"
  "cluster example_vader3 [[- 2], [3], [1]] = [1, 2, 0]"
  "cluster example_vader [[- 4]] = [1]"
  "cluster example_vader3 [[- 4]] = [1]"
  by (simp_all add: example_vader_def example_vader3_def Counter_def)

lemma seeded_repeats:
  "\<exists>j'. consensus_repeats example_seeded_models [[- 2], [3], [1]] [[- 4]] None
           [0..<nat (n_consensus example_full_job)] example_full_job []
     = Inr ([([1], 2, 2, 1 / 2, 4, 1), ([1], 3, 2, 1 / 2, 4, 1)], j')
     \<and> params_dict j' = params_dict example_full_job"
proof -
  let ?job = example_full_job
  have idx: "[0..<nat (n_consensus ?job)] = [0, 1]"
    by (simp add: example_full_job_def upt_rec)
  have sd: "seed ?job = Some 7"
    by (simp add: example_full_job_def)
  let ?a = "?job\<lparr>seed := Some 70\<rparr>"
  let ?a' = "?a\<lparr>world := world ?a @ [seed ?a]\<rparr>"
  let ?b = "?a'\<lparr>seed := Some 701\<rparr>"
  let ?b' = "?b\<lparr>world := world ?b @ [seed ?b]\<rparr>"
  have r0: "single_clustering example_seeded_models ?a [[- 2], [3], [1]] [[- 4]] None
      = Inr (([1], 2, 2, 1 / 2, 4, 1), ?a')"
    using seeded_single [of ?a "[[- 2], [3], [1]]" "[[- 4]]" None]
    by (simp add: seeded_labels Counter_def)
  have r1: "single_clustering example_seeded_models ?b [[- 2], [3], [1]] [[- 4]] None
      = Inr (([1], 3, 2, 1 / 2, 4, 1), ?b')"
    using seeded_single [of ?b "[[- 2], [3], [1]]" "[[- 4]]" None]
    by (simp add: seeded_labels Counter_def)
  have "consensus_repeats example_seeded_models [[- 2], [3], [1]] [[- 4]] None [0, 1] ?job []
      = Inr ([([1], 2, 2, 1 / 2, 4, 1), ([1], 3, 2, 1 / 2, 4, 1)], ?b')"
    using example_seeds(1,2) r0 [simplified] r1 [simplified] by (simp add: sd)
  moreover have "params_dict ?b' = params_dict example_full_job"
    by simp
  ultimately show ?thesis
    unfolding idx by blast
qed

lemma seeded_fold_step:
  "\<exists>res j'. cv_fold_step example_seeded_models example_full_job [[- 2], [3], [1]] [[- 4]]
       None None = Inr (res, j')
     \<and> map_of res ''effective_k'' = Some (Some (5 / 2))"
proof -
  from seeded_repeats obtain j1 where
    rep: "consensus_repeats example_seeded_models [[- 2], [3], [1]] [[- 4]] None
           [0..<nat (n_consensus example_full_job)] example_full_job []
     = Inr ([([1], 2, 2, 1 / 2, 4, 1), ([1], 3, 2, 1 / 2, 4, 1)], j1)"
    and p1: "params_dict j1 = params_dict example_full_job"
    by blast
  have n: "n_consensus example_full_job = 2"
    by (simp add: example_full_job_def)
  have c: "consensus_clustering example_seeded_models example_full_job [[- 2], [3], [1]] [[- 4]]
      None = Inr (([1], 5 / 2, 2, 1 / 2, 4, 1), j1)"
    unfolding consensus_clustering_def rep
    by (simp add: Let_def arith_mean_def example_seeded_models_def example_models_def)
  let ?c = "j1\<lparr>world := world j1 @ [seed j1]\<rparr>"
  have f: "fit_vader example_seeded_models j1 [[- 4]] (Inr None)
      = Inr (if seed j1 = Some 70 then example_vader else example_vader3, ?c)"
    by (rule seeded_fit [OF p1])
  have a: "dict_getitem (params_dict j1) ''alpha'' = Inr (Num 1)"
    by (simp add: p1 example_full_job_def dict_getitem_def)
  have m: "calc_permuted_clustering_evaluation_metrics example_seeded_models w a b k
      = (Inr [(''rand_index'', 1 / 2), (''adj_rand_index'', 0), (''prediction_strength'', 1 / 2)], w)"
    for w a b k
    by (simp add: example_seeded_models_def example_models_def)
  show ?thesis
    unfolding cv_fold_step_def
    by (simp add: n c a f [simplified] m Let_def total_loss_def) (simp add: dict_getitem_def)
qed
section \<open>Per-trial files never collide\<close>

text \<open>
  Claim C10. Two distinct (candidate-K, trial-number) pairs give distinct trial ids
  \<^verbatim>\<open>k{k}_trial{number}\<close> and distinct per-trial file paths in the trials directory:
  the mapping is injective, here over all integers and so over the non-negative ones,
  and no two trials target the same per-trial file.
\<close>

theorem trial_file_paths_distinct:
  "(k1, n1) \<noteq> (k2, n2) \<Longrightarrow>
     trial_id k1 n1 \<noteq> trial_id k2 n2 \<and> trial_file d k1 n1 \<noteq> trial_file d k2 n2"
proof -
  assume ne: "(k1, n1) \<noteq> (k2, n2)"
  have ids: "trial_id k1 n1 \<noteq> trial_id k2 n2"
    using ne trial_id_inj by blast
  have "trial_file d k1 n1 \<noteq> trial_file d k2 n2"
  proof
    assume "trial_file d k1 n1 = trial_file d k2 n2"
    then have "trial_id k1 n1 @ ''.csv'' = trial_id k2 n2 @ ''.csv''"
      unfolding trial_file_def
      by (rule os_path_join_inj) (simp_all add: trial_id_hd)
    with ids show False by simp
  qed
  with ids show ?thesis by simp
qed

theorem trial_file_paths_distinct_witness:
  "((2::int), (10::int)) \<noteq> (21, 0) \<and> trial_id 2 10 = ''k2_trial10''
     \<and> trial_id 21 0 = ''k21_trial0''
     \<and> trial_file ''out/csv_trials'' 2 10 \<noteq> trial_file ''out/csv_trials'' 21 0"
proof -
  have a: "trial_id 2 10 = ''k2_trial10''" by code_simp
  have b: "trial_id 21 0 = ''k21_trial0''" by code_simp
  show ?thesis
    using trial_file_paths_distinct [of 2 10 21 0 "''out/csv_trials''"] a b by simp
qed

section \<open>The K-fold split invariant\<close>

text \<open>
  Claim C7. For a dataset of \<open>n\<close> samples and a number of splits \<open>num_splits\<close> with
  \<open>2 \<le> num_splits \<le> n\<close>, whatever order the seeded shuffle gives the indices, the split
  used by \<^verbatim>\<open>run()\<close> succeeds and yields \<open>num_splits\<close> folds; in every fold the train
  and validation index sets are disjoint and their union is the full index set; the
  validation lists of all folds together hold every index exactly once, so every sample
  index lies in the validation set of exactly one fold.
\<close>

theorem KFold_split_partition:
  assumes "2 \<le> num_splits" and "num_splits \<le> int n" and "mset shuffled = mset [0..<n]"
  shows "\<exists>folds. KFold_split num_splits shuffled n = Inr folds
           \<and> length folds = nat num_splits
           \<and> (\<forall>(train_index, val_index) \<in> set folds.
                 set train_index \<inter> set val_index = {}
               \<and> set train_index \<union> set val_index = {0..<n})
           \<and> mset (concat (map snd folds)) = mset [0..<n]
           \<and> (\<forall>i<n. \<exists>!j. j < length folds \<and> i \<in> set (snd (folds ! j)))"
proof -
  define tests where "tests = iter_test_indices shuffled (fold_sizes (nat num_splits) n)"
  define folds where "folds = map (\<lambda>test. (filter (\<lambda>i. i \<notin> set test) [0..<n],
                          filter (\<lambda>i. i \<in> set test) [0..<n])) tests"
  have split: "KFold_split num_splits shuffled n = Inr folds"
    using assms(1,2) by (simp add: KFold_split_def folds_def tests_def)
  have len: "length folds = nat num_splits"
    by (simp add: folds_def tests_def length_iter_test_indices fold_sizes_def)
  have dist: "distinct shuffled"
    using assms(3) by (metis distinct_upt mset_eq_imp_distinct_iff)
  have setsh: "set shuffled = {0..<n}"
    using assms(3) by (metis mset_eq_setD set_upt)
  have lensh: "length shuffled = n"
    using assms(3) by (metis length_upt mset_eq_length minus_nat.diff_0)
  have each: "\<forall>(train_index, val_index) \<in> set folds.
                 set train_index \<inter> set val_index = {}
               \<and> set train_index \<union> set val_index = {0..<n}"
    by (auto simp: folds_def)
  have snd_folds: "map snd folds = map (\<lambda>test. filter (\<lambda>i. i \<in> set test) [0..<n]) tests"
    by (simp add: folds_def comp_def)
  have "mset (concat (map snd folds)) = mset (concat tests)"
    unfolding snd_folds
  proof (rule mset_concat_map)
    fix t assume "t \<in> set tests"
    then have "distinct t \<and> set t \<subseteq> set shuffled"
      unfolding tests_def using dist by (rule iter_test_indices_sub)
    then show "mset (filter (\<lambda>i. i \<in> set t) [0..<n]) = mset t"
      using setsh mset_filter_mem [of t n] by simp
  qed
  also have "concat tests = shuffled"
    using assms(1) lensh by (simp add: tests_def concat_iter_test_indices sum_list_fold_sizes)
  finally have part: "mset (concat (map snd folds)) = mset [0..<n]"
    using assms(3) by simp
  have dc: "distinct (concat (map snd folds))"
    using part by (metis distinct_upt mset_eq_imp_distinct_iff)
  have sc: "set (concat (map snd folds)) = {0..<n}"
    using part by (metis mset_eq_setD set_upt)
  have once: "\<forall>i<n. \<exists>!j. j < length folds \<and> i \<in> set (snd (folds ! j))"
  proof (intro allI impI)
    fix i assume "i < n"
    with sc have "i \<in> set (concat (map snd folds))" by simp
    then obtain v where "v \<in> set (map snd folds)" "i \<in> set v" by auto
    then obtain j where "j < length (map snd folds)" "map snd folds ! j = v" "i \<in> set v"
      by (auto simp: in_set_conv_nth)
    then have j: "j < length folds" "i \<in> set (snd (folds ! j))"
      by auto
    show "\<exists>!j. j < length folds \<and> i \<in> set (snd (folds ! j))"
    proof (rule ex1I [of _ j])
      show "j < length folds \<and> i \<in> set (snd (folds ! j))" using j by simp
    next
      fix j' assume j': "j' < length folds \<and> i \<in> set (snd (folds ! j'))"
      show "j' = j"
        using distinct_concat_unique [OF dc, of j' j i] j j' by simp
    qed
  qed
  from split len each part once show ?thesis by blast
qed

theorem KFold_split_partition_witness:
  "KFold_split 3 [4, 2, 6, 0, 1, 5, 3] 7 =
     Inr [([0, 1, 3, 5], [2, 4, 6]), ([2, 3, 4, 5, 6], [0, 1]), ([0, 1, 2, 4, 6], [3, 5])]
   \<and> (\<exists>folds. KFold_split 3 [4, 2, 6, 0, 1, 5, 3] 7 = Inr folds \<and> length folds = 3
         \<and> mset (concat (map snd folds)) = mset [0..<7])"
proof -
  have a: "(2::int) \<le> 3" "(3::int) \<le> int 7" by simp_all
  have "distinct [4, 2, 6, 0, 1, 5, 3::nat]" by simp
  moreover have "set [4, 2, 6, 0, 1, 5, 3] = set [0..<(7::nat)]" by code_simp
  ultimately have b: "mset [4, 2, 6, 0, 1, 5, 3] = mset [0..<(7::nat)]"
    using set_eq_iff_mset_eq_distinct [of "[4, 2, 6, 0, 1, 5, 3]" "[0..<(7::nat)]"] by simp
  have c: "KFold_split 3 [4, 2, 6, 0, 1, 5, 3] 7 =
     Inr [([0, 1, 3, 5], [2, 4, 6]), ([2, 3, 4, 5, 6], [0, 1]), ([0, 1, 2, 4, 6], [3, 5])]"
    by code_simp
  show ?thesis
    using KFold_split_partition [OF a b] c by auto
qed

section \<open>Splitting the weights\<close>

text \<open>
  Claim C1, as amended. For every job whose weights are an array with more than one
  element, \<^verbatim>\<open>run()\<close> raises a \<^verbatim>\<open>ValueError\<close> before any call of
  \<^verbatim>\<open>_cv_fold_step\<close> (and so before any model fit). Which one is settled in this
  order: with \<open>n_splits \<le> 1\<close> it is the splitter's error on its construction; with
  more splits than samples it is the splitter's error on the first fold being asked for;
  with a seed that is set and outside \<open>0 .. 2^32 - 1\<close> it is the error of the random
  number generator that shuffles the indices; and otherwise, when the split is valid and
  the seed is accepted, it is the error of the ambiguous truth value of an array, raised
  on the weight-splitting line in the first fold iteration. And in every execution of
  \<^verbatim>\<open>run()\<close> that does not raise, the \<^verbatim>\<open>W_val\<close> passed to
  \<^verbatim>\<open>_cv_fold_step\<close> is \<^verbatim>\<open>None\<close> for every fold.
\<close>

theorem run_weights_array_raises:
  "(weights job = Some w \<and> 1 < ndarray_size w \<longrightarrow>
      run step shuffled job =
        ([], Inl (if n_splits job \<le> 1
                  then ValueError ''k-fold cross-validation requires at least one train/test split''
                  else if int (length (data job)) < n_splits job
                  then ValueError ''Cannot have number of splits greater than the number of samples''
                  else if \<exists>s. seed job = Some s \<and> (s < 0 \<or> 2 ^ 32 \<le> s)
                  then ValueError ''Seed must be between 0 and 2**32 - 1''
                  else ambiguous_truth_value))
      \<and> (\<exists>e. run step shuffled job = ([], Inl e) \<and> is_ValueError e))
   \<and> (\<forall>calls row. run step shuffled job = (calls, Inr row) \<longrightarrow>
        (\<forall>c \<in> set calls. W_val c = None))"
proof -
  let ?e = "if n_splits job \<le> 1
      then ValueError ''k-fold cross-validation requires at least one train/test split''
      else if int (length (data job)) < n_splits job
      then ValueError ''Cannot have number of splits greater than the number of samples''
      else if \<exists>s. seed job = Some s \<and> (s < 0 \<or> 2 ^ 32 \<le> s)
      then ValueError ''Seed must be between 0 and 2**32 - 1''
      else ambiguous_truth_value"
  have raised: "run step shuffled job = ([], Inl ?e)"
    if w: "weights job = Some w" "1 < ndarray_size w"
  proof (cases "2 \<le> n_splits job \<and> n_splits job \<le> int (length (data job))")
    case False
    then show ?thesis
      by (auto simp: run_def KFold_shuffle_split_def KFold_split_def)
  next
    case True
    then have k: "2 \<le> n_splits job" "n_splits job \<le> int (length (data job))"
      by simp_all
    from KFold_split_valid [OF k] obtain test tests where
      split: "KFold_split (n_splits job) shuffled (length (data job)) =
         Inr ((filter (\<lambda>i. i \<notin> set test) [0..<length (data job)],
               filter (\<lambda>i. i \<in> set test) [0..<length (data job)]) # tests)"
      by blast
    show ?thesis
    proof (cases "\<exists>s. seed job = Some s \<and> (s < 0 \<or> 2 ^ 32 \<le> s)")
      case rejected: True
      then obtain s where "seed job = Some s" "s < 0 \<or> 2 ^ 32 \<le> s"
        by blast
      then have "check_random_state (seed job)
          = Inl (ValueError ''Seed must be between 0 and 2**32 - 1'')"
        by (simp add: check_random_state_rejected)
      with split k rejected show ?thesis
        by (simp add: run_def KFold_shuffle_split_def)
    next
      case accepted: False
      then have "check_random_state (seed job) = Inr ()"
        by (cases "seed job") (auto simp: check_random_state_def)
      then have "KFold_shuffle_split (n_splits job) (seed job) shuffled (length (data job)) =
         Inr ((filter (\<lambda>i. i \<notin> set test) [0..<length (data job)],
               filter (\<lambda>i. i \<in> set test) [0..<length (data job)]) # tests)"
        using split by (simp add: KFold_shuffle_split_accepted)
      then have "run step shuffled job = ([], Inl ambiguous_truth_value)"
        using w by (simp add: run_def ndarray_getitem_filter split_weights_ambiguous)
      with k accepted show ?thesis
        by auto
    qed
  qed
  have "is_ValueError ?e"
    by (simp add: ambiguous_truth_value_def)
  with raised have "\<exists>e. run step shuffled job = ([], Inl e) \<and> is_ValueError e"
    if "weights job = Some w" "1 < ndarray_size w"
    using that by blast
  moreover have "\<forall>c \<in> set calls. W_val c = None" if "run step shuffled job = (calls, Inr row)"
    for calls row
    using run_W_val [of _ step shuffled job] that by simp
  ultimately show ?thesis
    using raised by blast
qed


theorem run_weights_array_raises_witness:
  "weights (example_job\<lparr>weights := Some [[1], [1], [1], [1], [1]]\<rparr>) = Some [[1], [1], [1], [1], [1]]
   \<and> 1 < ndarray_size [[1], [1], [1], [1], [1]]
   \<and> run example_step [3, 1, 0, 4, 2] (example_job\<lparr>weights := Some [[1], [1], [1], [1], [1]]\<rparr>)
       = ([], Inl ambiguous_truth_value)
   \<and> run example_step [3, 1, 0, 4, 2]
        (example_job\<lparr>weights := Some [[1], [1], [1], [1], [1]], seed := Some (- 1)\<rparr>)
       = ([], Inl (ValueError ''Seed must be between 0 and 2**32 - 1''))
   \<and> (\<exists>calls row. run example_step [3, 1, 0, 4, 2] example_job = (calls, Inr row)
         \<and> length calls = 2 \<and> list_all (\<lambda>c. W_val c = None) calls)"
proof -
  let ?w = "[[1], [1], [1], [1], [1]] :: ndarray"
  let ?job = "example_job\<lparr>weights := Some ?w\<rparr>"
  let ?job' = "example_job\<lparr>weights := Some ?w, seed := Some (- 1)\<rparr>"
  have a: "weights ?job = Some ?w" "1 < ndarray_size ?w"
    by (simp_all add: example_job_def ndarray_size_def)
  have a': "weights ?job' = Some ?w"
    by (simp add: example_job_def)
  have b: "run example_step [3, 1, 0, 4, 2] ?job = ([], Inl ambiguous_truth_value)"
    using run_weights_array_raises [of ?job ?w example_step "[3, 1, 0, 4, 2]"] a
    by (simp add: example_job_def)
  have b': "run example_step [3, 1, 0, 4, 2] ?job'
      = ([], Inl (ValueError ''Seed must be between 0 and 2**32 - 1''))"
    using run_weights_array_raises [of ?job' ?w example_step "[3, 1, 0, 4, 2]"] a' a(2)
    by (simp add: example_job_def)
  obtain calls r where c: "run example_step [3, 1, 0, 4, 2] example_job = (calls, r)"
    by (cases "run example_step [3, 1, 0, 4, 2] example_job")
  have d: "length (fst (run example_step [3, 1, 0, 4, 2] example_job)) = 2
     \<and> \<not> isl (snd (run example_step [3, 1, 0, 4, 2] example_job))"
    by code_simp
  from c d obtain row where e: "r = Inr row" "length calls = 2"
    by (cases r) auto
  have "\<forall>c \<in> set calls. W_val c = None"
    using run_weights_array_raises [of example_job ?w example_step "[3, 1, 0, 4, 2]"] c e
    by blast
  with a b b' c e show ?thesis
    by (auto simp: list_all_iff)
qed

text \<open>
  The claim as stated fails where the error of the ambiguous truth value is not the
  first one. With three splits of two samples the splitter raises its own
  \<^verbatim>\<open>ValueError\<close> before the first fold iteration; and with the seed \<open>2^32\<close> and a
  valid split the random number generator rejects the seed when the first fold is asked
  for. In both runs the weights have more than one element and the weight-splitting line
  is not reached.
\<close>

theorem run_weights_array_counterexample:
  "weights (example_job\<lparr>data := [[1], [2]], weights := Some [[1], [1]], n_splits := 3\<rparr>)
     = Some [[1], [1]]
   \<and> 1 < ndarray_size [[1], [1]]
   \<and> run example_step [1, 0]
        (example_job\<lparr>data := [[1], [2]], weights := Some [[1], [1]], n_splits := 3\<rparr>)
      = ([], Inl (ValueError ''Cannot have number of splits greater than the number of samples''))
   \<and> run example_step [1, 0]
        (example_job\<lparr>data := [[1], [2]], weights := Some [[1], [1]], n_splits := 3\<rparr>)
      \<noteq> ([], Inl ambiguous_truth_value)
   \<and> weights (example_job\<lparr>weights := Some [[1], [1], [1], [1], [1]], seed := Some 4294967296\<rparr>)
     = Some [[1], [1], [1], [1], [1]]
   \<and> 1 < ndarray_size [[1], [1], [1], [1], [1]]
   \<and> run example_step [3, 1, 0, 4, 2]
        (example_job\<lparr>weights := Some [[1], [1], [1], [1], [1]], seed := Some 4294967296\<rparr>)
      = ([], Inl (ValueError ''Seed must be between 0 and 2**32 - 1''))
   \<and> run example_step [3, 1, 0, 4, 2]
        (example_job\<lparr>weights := Some [[1], [1], [1], [1], [1]], seed := Some 4294967296\<rparr>)
      \<noteq> ([], Inl ambiguous_truth_value)"
proof -
  let ?job = "example_job\<lparr>data := [[1], [2]], weights := Some [[1], [1]], n_splits := 3\<rparr>"
  let ?job' = "example_job\<lparr>weights := Some [[1], [1], [1], [1], [1]], seed := Some 4294967296\<rparr>"
  have "run example_step [1, 0] ?job
      = ([], Inl (ValueError ''Cannot have number of splits greater than the number of samples''))"
    by (simp add: example_job_def run_def KFold_shuffle_split_def KFold_split_def)
  moreover have "KFold_split (n_splits ?job') [3, 1, 0, 4, 2] (length (data ?job'))
      = Inr [([2, 4], [0, 1, 3]), ([0, 1, 3], [2, 4])]"
    by code_simp
  then have "run example_step [3, 1, 0, 4, 2] ?job'
      = ([], Inl (ValueError ''Seed must be between 0 and 2**32 - 1''))"
    by (simp add: run_def KFold_shuffle_split_def check_random_state_def example_job_def)
  ultimately show ?thesis
    by (simp add: example_job_def ndarray_size_def ambiguous_truth_value_def)
qed

section \<open>The Job Result row\<close>




section \<open>The repeat files\<close>

text \<open>
  Claim C5. Let \<open>df\<close> be the concatenation of the tables read from the persisted trial
  files, of \<open>M\<close> rows, and \<open>N = n_repeats > 0\<close>. The regrouping step succeeds and writes
  the repeat files \<^verbatim>\<open>repeat_0.csv\<close> to \<^verbatim>\<open>repeat_{N-1}.csv\<close>, which are \<open>N\<close> different paths, and
  touches no other file. Repeat file \<open>r\<close> holds, under the columns of \<open>df\<close>, exactly the
  rows of \<open>df\<close> whose position \<open>j\<close> satisfies \<open>j mod N = r\<close>, in their order and with
  their values. Taken together the repeat files hold every row of \<open>df\<close> once: no row is
  duplicated or dropped.
\<close>

theorem gen_repeats_files:
  assumes "read_trials pd_read_csv entries [] = Inr dfs" and "pd_concat dfs = Inr df"
    and "0 < n_repeats opt"
  shows "\<exists>files'. gen_repeats_files_from_trials_files pd_read_csv opt entries files = Inr files'
     \<and> (\<forall>r < nat (n_repeats opt).
           files' (repeat_file opt r) =
             Some (Csv (fst df, map (\<lambda>j. snd df ! j)
                (filter (\<lambda>j. j mod nat (n_repeats opt) = r) [0..<length (snd df)]))))
     \<and> (\<forall>p. p \<notin> repeat_file opt ` {..<nat (n_repeats opt)} \<longrightarrow> files' p = files p)
     \<and> card (repeat_file opt ` {..<nat (n_repeats opt)}) = nat (n_repeats opt)
     \<and> (\<Sum>r<nat (n_repeats opt). mset (map (\<lambda>j. snd df ! j)
                (filter (\<lambda>j. j mod nat (n_repeats opt) = r) [0..<length (snd df)])))
         = mset (snd df)"
proof -
  let ?N = "nat (n_repeats opt)"
  from write_repeats_lookup [OF assms(3), of "[0..<?N]" df files] obtain files' where
    w: "write_repeats opt df [0..<?N] files = Inr files'"
    and written: "\<forall>r \<in> set [0..<?N]. files' (repeat_file opt r) = Some (Csv (repeat_part opt df r))"
    and other: "\<forall>p. p \<notin> repeat_file opt ` set [0..<?N] \<longrightarrow> files' p = files p"
    by auto
  have run: "gen_repeats_files_from_trials_files pd_read_csv opt entries files = Inr files'"
    using assms w by (simp add: gen_repeats_files_from_trials_files_def)
  have "inj_on (repeat_file opt) {..<?N}"
    by (rule inj_onI) (rule repeat_file_inj)
  then have card: "card (repeat_file opt ` {..<?N}) = ?N"
    by (simp add: card_image)
  have all: "(\<Sum>r<?N. mset (map (\<lambda>j. snd df ! j)
                (filter (\<lambda>j. j mod ?N = r) [0..<length (snd df)]))) = mset (snd df)"
    using assms(3) by (intro rows_redistributed) simp
  from written have written': "\<forall>r < ?N. files' (repeat_file opt r) =
             Some (Csv (fst df, map (\<lambda>j. snd df ! j)
                (filter (\<lambda>j. j mod ?N = r) [0..<length (snd df)])))"
    by (simp add: repeat_part_def)
  from other have other': "\<forall>p. p \<notin> repeat_file opt ` {..<?N} \<longrightarrow> files' p = files p"
    by (simp add: lessThan_atLeast0)
  show ?thesis
    by (rule exI [of _ files']) (intro conjI run written' other' card all)
qed


theorem gen_repeats_files_witness:
  "\<exists>files'. gen_repeats_files_from_trials_files example_read_csv example_optimizer
         example_entries Map.empty = Inr files'
     \<and> files' ''out/csv_repeats/repeat_0.csv''
         = Some (Csv ([''score''], [[Some (Num 0)], [Some (Num 5)]]))
     \<and> files' ''out/csv_repeats/repeat_3.csv''
         = Some (Csv ([''score''], [[Some (Num 3)], [Some (Num 8)]]))
     \<and> files' ''out/csv_repeats/repeat_4.csv''
         = Some (Csv ([''score''], [[Some (Num 4)], [Some (Num 9)]]))
     \<and> files' ''out/csv_repeats/repeat_5.csv'' = None"
proof -
  let ?rows = "[[Some (Num 0)], [Some (Num 1)], [Some (Num 2)], [Some (Num 3)], [Some (Num 4)],
     [Some (Num 5)], [Some (Num 6)], [Some (Num 7)], [Some (Num 8)], [Some (Num 9)]]"
  let ?df = "([''score''], ?rows) :: cell dataframe"
  have a: "read_trials example_read_csv example_entries [] =
      Inr [([''score''], [[Some (Num 0)], [Some (Num 1)], [Some (Num 2)], [Some (Num 3)],
                          [Some (Num 4)]]),
           ([''score''], [[Some (Num 5)], [Some (Num 6)], [Some (Num 7)], [Some (Num 8)],
                          [Some (Num 9)]])]"
    by (simp add: example_entries_def example_read_csv_def endswith_def)
  have b: "pd_concat [([''score''], [[Some (Num 0)], [Some (Num 1)], [Some (Num 2)],
                          [Some (Num 3)], [Some (Num 4)]]),
           ([''score''], [[Some (Num 5)], [Some (Num 6)], [Some (Num 7)], [Some (Num 8)],
                          [Some (Num 9)]])] = Inr ?df"
    by (simp add: pd_concat_def)
  have c: "0 < n_repeats example_optimizer"
    by (simp add: example_optimizer_def VADERBayesianOptimizer_def)
  have n: "nat (n_repeats example_optimizer) = 5"
    by (simp add: example_optimizer_def VADERBayesianOptimizer_def)
  have p: "repeat_file example_optimizer 0 = ''out/csv_repeats/repeat_0.csv''"
    "repeat_file example_optimizer 3 = ''out/csv_repeats/repeat_3.csv''"
    "repeat_file example_optimizer 4 = ''out/csv_repeats/repeat_4.csv''"
    by code_simp+
  have q: "''out/csv_repeats/repeat_5.csv'' \<notin> repeat_file example_optimizer ` {..<5}"
  proof -
    have "repeat_file example_optimizer 5 = ''out/csv_repeats/repeat_5.csv''"
      by code_simp
    then show ?thesis
      by (metis imageE lessThan_iff less_irrefl repeat_file_inj)
  qed
  have f: "map (\<lambda>j. ?rows ! j) (filter (\<lambda>j. j mod 5 = 0) [0..<length ?rows])
        = [[Some (Num 0)], [Some (Num 5)]]"
    "map (\<lambda>j. ?rows ! j) (filter (\<lambda>j. j mod 5 = 3) [0..<length ?rows])
        = [[Some (Num 3)], [Some (Num 8)]]"
    "map (\<lambda>j. ?rows ! j) (filter (\<lambda>j. j mod 5 = 4) [0..<length ?rows])
        = [[Some (Num 4)], [Some (Num 9)]]"
    by code_simp+
  from gen_repeats_files [OF a b c, of Map.empty] obtain files' where
    r: "gen_repeats_files_from_trials_files example_read_csv example_optimizer
         example_entries Map.empty = Inr files'"
    and w: "\<forall>r < 5. files' (repeat_file example_optimizer r) =
             Some (Csv (fst ?df, map (\<lambda>j. snd ?df ! j)
                (filter (\<lambda>j. j mod 5 = r) [0..<length (snd ?df)])))"
    and o: "\<forall>p. p \<notin> repeat_file example_optimizer ` {..<5} \<longrightarrow> files' p = Map.empty p"
    unfolding n by blast
  have "files' ''out/csv_repeats/repeat_0.csv''
         = Some (Csv ([''score''], [[Some (Num 0)], [Some (Num 5)]]))"
    using w [rule_format, of 0] p(1) f(1) by simp
  moreover have "files' ''out/csv_repeats/repeat_3.csv''
         = Some (Csv ([''score''], [[Some (Num 3)], [Some (Num 8)]]))"
    using w [rule_format, of 3] p(2) f(2) by simp
  moreover have "files' ''out/csv_repeats/repeat_4.csv''
         = Some (Csv ([''score''], [[Some (Num 4)], [Some (Num 9)]]))"
    using w [rule_format, of 4] p(3) f(3) by simp
  moreover have "files' ''out/csv_repeats/repeat_5.csv'' = None"
    using o q by simp
  ultimately show ?thesis
    using r by blast
qed

section \<open>The objective value of a trial\<close>

text \<open>
  Claim C3. Let \<open>rows\<close> be the rows that the \<open>n_repeats\<close> job invocations of a trial
  contributed. When no row has the scoring column \<^verbatim>\<open>prediction_strength_diff\<close>,
  \<^verbatim>\<open>objective\<close> returns \<^verbatim>\<open>None\<close>: it neither raises nor returns zero. When the
  column is present, the objective is the mean of the column, which is taken over the
  numbers that the rows carry in it; when every one of the \<open>n_repeats\<close> rows carries a
  number there, it is the sum of these numbers divided by \<open>n_repeats\<close>.
\<close>

theorem objective_score:
  assumes "objective_repeats ext opt tr k X W (objective_params tr k)
             [0..<nat (n_repeats opt)] files w [] [] = Inr (rows, files1, w1, history)"
  shows "length rows = nat (n_repeats opt)
    \<and> ((\<forall>row \<in> set rows. ''prediction_strength_diff'' \<notin> fst ` set row) \<longrightarrow>
         (\<exists>files'. objective ext opt tr k X W files w = Inr (None, files', w1, history)))
    \<and> ((\<exists>row \<in> set rows. ''prediction_strength_diff'' \<in> fst ` set row)
         \<and> (\<forall>row \<in> set rows. \<forall>t. map_of row ''prediction_strength_diff'' \<noteq> Some (Tup t)) \<longrightarrow>
         (\<exists>files'. objective ext opt tr k X W files w =
            Inr (Some (cell_of_mean (np_mean (column_values ''prediction_strength_diff'' rows))),
                 files', w1, history)))
    \<and> ((\<forall>row \<in> set rows. \<exists>v. map_of row ''prediction_strength_diff'' = Some (Num v))
         \<and> 0 < n_repeats opt \<longrightarrow>
         (\<exists>files'. objective ext opt tr k X W files w =
            Inr (Some (Num (sum_list (map (\<lambda>row. num_value (map_of row ''prediction_strength_diff''))
                                     rows) / real (nat (n_repeats opt)))),
                 files', w1, history)))"
proof -
  let ?c = "''prediction_strength_diff''"
  let ?df = "DataFrame rows"
  let ?files2 = "files1(trial_file (output_trials_dir opt) k (number tr) \<mapsto> Csv ?df)"
  have len: "length rows = nat (n_repeats opt)"
    using objective_repeats_length [OF assms] by simp
  have absent: "objective ext opt tr k X W files w = Inr (None, ?files2, w1, history)"
    if "\<forall>row \<in> set rows. ?c \<notin> fst ` set row"
  proof -
    from that have "?c \<notin> set (fst ?df)"
      unfolding columns_DataFrame by blast
    with assms show ?thesis
      by (simp add: objective_def Let_def)
  qed
  have present: "objective ext opt tr k X W files w =
      Inr (Some (cell_of_mean (np_mean (column_values ?c rows))), ?files2, w1, history)"
    if some: "\<exists>row \<in> set rows. ?c \<in> fst ` set row"
      and num: "\<forall>row \<in> set rows. \<forall>t. map_of row ?c \<noteq> Some (Tup t)"
  proof -
    from some have col: "?c \<in> set (fst ?df)"
      unfolding columns_DataFrame by blast
    then have "df_column ?df ?c = map (\<lambda>r. map_of r ?c) rows"
      by (rule df_column_DataFrame)
    with num have "series_mean (df_column ?df ?c)
        = Inr (cell_of_mean (np_mean (column_values ?c rows)))"
      by (simp add: series_mean_def numeric_values_column)
    with assms col show ?thesis
      by (simp add: objective_def Let_def)
  qed
  have all: "objective ext opt tr k X W files w =
      Inr (Some (Num (sum_list (map (\<lambda>row. num_value (map_of row ?c)) rows)
                       / real (nat (n_repeats opt)))), ?files2, w1, history)"
    if every: "\<forall>row \<in> set rows. \<exists>v. map_of row ?c = Some (Num v)" and pos: "0 < n_repeats opt"
  proof -
    from pos len obtain row where row: "row \<in> set rows"
      by (cases rows) auto
    with every have "?c \<in> fst ` set row"
      by (metis domI dom_map_of_conv_image_fst)
    with row have some: "\<exists>row \<in> set rows. ?c \<in> fst ` set row" by blast
    from every have num: "\<forall>row \<in> set rows. \<forall>t. map_of row ?c \<noteq> Some (Tup t)"
      by fastforce
    from pos len have ne: "rows \<noteq> []" by auto
    have "cell_of_mean (np_mean (column_values ?c rows))
        = Num (sum_list (map (\<lambda>row. num_value (map_of row ?c)) rows) / real (nat (n_repeats opt)))"
      using every ne len by (simp add: column_values_all np_mean_def cell_of_mean_def)
    with present [OF some num] show ?thesis by simp
  qed
  from len absent present all show ?thesis
    by blast
qed


theorem objective_score_witness:
  "(\<exists>files' history. objective example_ext example_optimizer3 example_trial 2 [[1], [2]] None
        Map.empty example_world = Inr (Some (Num 1), files', [], history))
   \<and> (\<exists>files' history. objective example_ext example_optimizer3 example_trial 2 [[1], [2]] None
        Map.empty [''job-b'', ''job-b'', ''job-b''] = Inr (None, files', [], history))"
proof -
  let ?p = "objective_params example_trial 2"
  let ?rows = "[(''prediction_strength_diff'', Num 2) # ?p, ?p,
                (''prediction_strength_diff'', Num 0) # ?p]"
  have some: "\<exists>row \<in> set ?rows. ''prediction_strength_diff'' \<in> fst ` set row"
    by simp
  have num: "\<forall>row \<in> set ?rows. \<forall>t. map_of row ''prediction_strength_diff'' \<noteq> Some (Tup t)"
    by (simp add: objective_params_def)
  have mean: "cell_of_mean (np_mean (column_values ''prediction_strength_diff'' ?rows)) = Num 1"
    by (simp add: column_values_def objective_params_def np_mean_def cell_of_mean_def)
  have "\<exists>files' history. objective example_ext example_optimizer3 example_trial 2 [[1], [2]] None
        Map.empty example_world = Inr (Some (Num 1), files', [], history)"
    using objective_score [OF example_loop] some num mean by (metis (no_types, lifting))
  moreover have absent: "\<forall>row \<in> set [?p, ?p, ?p]. ''prediction_strength_diff'' \<notin> fst ` set row"
    by (simp add: objective_params_def)
  have "\<exists>files' history. objective example_ext example_optimizer3 example_trial 2 [[1], [2]] None
        Map.empty [''job-b'', ''job-b'', ''job-b''] = Inr (None, files', [], history)"
    using objective_score [OF example_loop_failed] absent by blast
  ultimately show ?thesis by blast
qed

section \<open>Failure containment\<close>

lemma row_of_outcome_case:
  "(\<lambda>h. row_of_outcome params (snd h))
     = (\<lambda>h :: string \<times> (exn + series). case snd h of Inl e \<Rightarrow> params | Inr r \<Rightarrow> r)"
  by (rule ext) (simp add: row_of_outcome_def split: sum.splits)

lemma DataFrame_cell:
  assumes "i < length records" "c \<in> set (fst (DataFrame records))"
  shows "df_column (DataFrame records) c ! i = map_of (records ! i) c"
  using assms by (simp add: df_column_DataFrame)

lemma DataFrame_row_columns:
  assumes "i < length records"
  shows "fst ` set (records ! i) \<subseteq> set (fst (DataFrame records))"
  unfolding columns_DataFrame using assms by (meson UN_upper nth_mem)

lemma objective_params_cells:
  "map fst (objective_params tr k) = [''k'', ''n_hidden'', ''learning_rate'', ''batch_size'', ''alpha'']"
  "map_of (objective_params tr k) ''k'' = Some (Num (of_int k))"
  "map_of (objective_params tr k) ''n_hidden'' = Some (Tup [n_hidden_1 tr, n_hidden_2 tr])"
  "map_of (objective_params tr k) ''learning_rate'' = Some (Num (learning_rate tr))"
  "map_of (objective_params tr k) ''batch_size'' = Some (Num (of_int (batch_size tr)))"
  "map_of (objective_params tr k) ''alpha'' = Some (Num 1)"
  by (simp_all add: objective_params_def)

lemma objective_params_other:
  "c \<notin> {''k'', ''n_hidden'', ''learning_rate'', ''batch_size'', ''alpha''} \<Longrightarrow>
     map_of (objective_params tr k) c = None"
  by (simp add: objective_params_def)

text \<open>
  Claim C4. Take a trial of \<open>n_repeats\<close> job invocations whose jobs raise only what
  \<^verbatim>\<open>except Exception\<close> catches and return numbers under the scoring column, for a
  candidate K and a trial number that are not negative. Then \<^verbatim>\<open>objective\<close> returns
  (the sweep continues); \<open>n_repeats\<close> jobs have run, each with the hyperparameter
  configuration of the trial; and the persisted trial file is the table of exactly
  \<open>n_repeats\<close> rows, row \<open>i\<close> coming from job \<open>i\<close>: the row that the job returned, or
  the configuration for a job that raised. In the row of a job that raised, the five
  columns of the configuration hold its values and every other column is missing (no
  metrics); and the file named by the job's identifier in the failure directory holds
  the error message with the full error trace (the identifiers being unique, so that no
  log overwrites another). In the row of a job that returned, every column holds what
  the job's row has under it. Beside the trial file and the logs of the jobs that
  raised, no file is touched.
\<close>

theorem objective_failure_containment:
  assumes exc: "\<forall>j e w'. job_run ext j = (Inl e, w') \<longrightarrow> is_Exception e"
    and num: "\<forall>j r w' t. job_run ext j = (Inr r, w') \<longrightarrow>
                map_of r ''prediction_strength_diff'' \<noteq> Some (Tup t)"
    and k: "0 \<le> k" "0 \<le> number tr"
  shows "\<exists>score files' w' history df.
     objective ext opt tr k X W files w = Inr (score, files', w', history)
     \<and> length history = nat (n_repeats opt)
     \<and> (\<forall>h \<in> set history. \<exists>j w2. job_run ext j = (snd h, w2) \<and> cv_id j = fst h
           \<and> params_dict j = objective_params tr k)
     \<and> files' (trial_file (output_trials_dir opt) k (number tr)) = Some (Csv df)
     \<and> df = DataFrame (map (\<lambda>h. case snd h of Inl e \<Rightarrow> objective_params tr k | Inr r \<Rightarrow> r)
                          history)
     \<and> length (snd df) = nat (n_repeats opt)
     \<and> (\<forall>p. p \<noteq> trial_file (output_trials_dir opt) k (number tr)
             \<and> p \<notin> (\<lambda>h. log_file opt (fst h)) ` {h \<in> set history. isl (snd h)} \<longrightarrow>
             files' p = files p)
     \<and> (\<forall>i < nat (n_repeats opt). \<forall>e. snd (history ! i) = Inl e \<longrightarrow>
           snd df ! i = map (map_of (objective_params tr k)) (fst df)
           \<and> {''k'', ''n_hidden'', ''learning_rate'', ''batch_size'', ''alpha''} \<subseteq> set (fst df)
           \<and> df_column df ''k'' ! i = Some (Num (of_int k))
           \<and> df_column df ''n_hidden'' ! i = Some (Tup [n_hidden_1 tr, n_hidden_2 tr])
           \<and> df_column df ''learning_rate'' ! i = Some (Num (learning_rate tr))
           \<and> df_column df ''batch_size'' ! i = Some (Num (of_int (batch_size tr)))
           \<and> df_column df ''alpha'' ! i = Some (Num 1)
           \<and> (\<forall>c \<in> set (fst df).
                 c \<notin> {''k'', ''n_hidden'', ''learning_rate'', ''batch_size'', ''alpha''} \<longrightarrow>
                 df_column df c ! i = None)
           \<and> (distinct (map (\<lambda>j. log_file opt (fst j)) history) \<longrightarrow>
                files' (log_file opt (fst (history ! i)))
                  = Some (Text (error_message ext (fst (history ! i)) (objective_params tr k) e))))
     \<and> (\<forall>i < nat (n_repeats opt). \<forall>r. snd (history ! i) = Inr r \<longrightarrow>
           snd df ! i = map (map_of r) (fst df)
           \<and> fst ` set r \<subseteq> set (fst df)
           \<and> (\<forall>c \<in> set (fst df). df_column df c ! i = map_of r c))"
proof -
  let ?p = "objective_params tr k"
  let ?n = "nat (n_repeats opt)"
  let ?c = "''prediction_strength_diff''"
  let ?keys = "{''k'', ''n_hidden'', ''learning_rate'', ''batch_size'', ''alpha''}"
  from objective_repeats_log [OF exc k, of opt X W ?p "[0..<?n]" files w "[]" "[]"]
  obtain w1 new where
    loop: "objective_repeats ext opt tr k X W ?p [0..<?n] files w [] []
        = Inr (map (\<lambda>j. row_of_outcome ?p (snd j)) new,
               failure_logs ext opt ?p new files, w1, new)"
    and len: "length new = ?n"
    and jobs: "\<forall>h \<in> set new. \<exists>j w2. job_run ext j = (snd h, w2) \<and> cv_id j = fst h
        \<and> params_dict j = ?p"
    by auto
  let ?rows = "map (\<lambda>j. row_of_outcome ?p (snd j)) new"
  let ?df = "DataFrame ?rows"
  let ?files1 = "failure_logs ext opt ?p new files"
  let ?files2 = "?files1(trial_file (output_trials_dir opt) k (number tr) \<mapsto> Csv ?df)"
  have no_tup: "\<forall>row \<in> set ?rows. \<forall>t. map_of row ?c \<noteq> Some (Tup t)"
  proof (intro ballI allI)
    fix row t assume "row \<in> set ?rows"
    then obtain h where h: "h \<in> set new" "row = row_of_outcome ?p (snd h)"
      by auto
    show "map_of row ?c \<noteq> Some (Tup t)"
    proof (cases "snd h")
      case (Inl e)
      with h show ?thesis
        by (simp add: row_of_outcome_def objective_params_def)
    next
      case (Inr r)
      with jobs h(1) obtain j w2 where "job_run ext j = (Inr r, w2)"
        by fastforce
      with num have "map_of r ?c \<noteq> Some (Tup t)" by blast
      with h Inr show ?thesis
        by (simp add: row_of_outcome_def)
    qed
  qed
  have "\<exists>score. objective ext opt tr k X W files w = Inr (score, ?files2, w1, new)"
  proof (cases "?c \<in> set (fst ?df)")
    case True
    then have dfc: "df_column ?df ?c = map (\<lambda>r. map_of r ?c) ?rows"
      by (rule df_column_DataFrame)
    have nv: "numeric_values (map (\<lambda>r. map_of r ?c) ?rows) = Inr (column_values ?c ?rows)"
      by (rule numeric_values_column [OF no_tup])
    have "series_mean (df_column ?df ?c)
        = Inr (cell_of_mean (np_mean (column_values ?c ?rows)))"
      unfolding series_mean_def dfc nv by simp
    with loop True show ?thesis
      by (simp add: objective_def Let_def)
  next
    case False
    with loop show ?thesis
      by (simp add: objective_def Let_def)
  qed
  then obtain score where
    obj: "objective ext opt tr k X W files w = Inr (score, ?files2, w1, new)"
    by blast
  have tfile: "?files2 (trial_file (output_trials_dir opt) k (number tr)) = Some (Csv ?df)"
    by simp
  have table: "?df = DataFrame (map (\<lambda>h. case snd h of Inl e \<Rightarrow> ?p | Inr r \<Rightarrow> r) new)"
    by (simp only: row_of_outcome_case)
  have rows: "length (snd ?df) = ?n"
    using len by (simp add: rows_DataFrame)
  have untouched: "\<forall>p. p \<noteq> trial_file (output_trials_dir opt) k (number tr)
             \<and> p \<notin> (\<lambda>h. log_file opt (fst h)) ` {h \<in> set new. isl (snd h)} \<longrightarrow>
             ?files2 p = files p"
    by (simp add: failure_logs_untouched)
  have row: "snd ?df ! i = map (map_of (row_of_outcome ?p (snd (new ! i)))) (fst ?df)"
    if "i < ?n" for i
    using that len by (simp add: rows_DataFrame)
  have cell: "df_column ?df c ! i = map_of (row_of_outcome ?p (snd (new ! i))) c"
    if "i < ?n" "c \<in> set (fst ?df)" for i c
    using DataFrame_cell [of i ?rows c] that len by simp
  have columns: "fst ` set (row_of_outcome ?p (snd (new ! i))) \<subseteq> set (fst ?df)"
    if "i < ?n" for i
    using DataFrame_row_columns [of i ?rows] that len by simp
  have failed: "snd ?df ! i = map (map_of ?p) (fst ?df)
      \<and> ?keys \<subseteq> set (fst ?df)
      \<and> df_column ?df ''k'' ! i = Some (Num (of_int k))
      \<and> df_column ?df ''n_hidden'' ! i = Some (Tup [n_hidden_1 tr, n_hidden_2 tr])
      \<and> df_column ?df ''learning_rate'' ! i = Some (Num (learning_rate tr))
      \<and> df_column ?df ''batch_size'' ! i = Some (Num (of_int (batch_size tr)))
      \<and> df_column ?df ''alpha'' ! i = Some (Num 1)
      \<and> (\<forall>c \<in> set (fst ?df). c \<notin> ?keys \<longrightarrow> df_column ?df c ! i = None)
      \<and> (distinct (map (\<lambda>j. log_file opt (fst j)) new) \<longrightarrow>
           ?files2 (log_file opt (fst (new ! i)))
             = Some (Text (error_message ext (fst (new ! i)) ?p e)))"
    if i: "i < ?n" and e: "snd (new ! i) = Inl e" for i e
  proof -
    have r: "row_of_outcome ?p (snd (new ! i)) = ?p"
      using e by (simp add: row_of_outcome_def)
    have "fst ` set ?p \<subseteq> set (fst ?df)"
      using columns [OF i] r by simp
    moreover have "fst ` set ?p = ?keys"
      by (simp add: objective_params_def)
    ultimately have keys: "?keys \<subseteq> set (fst ?df)"
      by simp
    have a: "snd ?df ! i = map (map_of ?p) (fst ?df)"
      using row [OF i] r by simp
    have b: "df_column ?df ''k'' ! i = Some (Num (of_int k))"
      "df_column ?df ''n_hidden'' ! i = Some (Tup [n_hidden_1 tr, n_hidden_2 tr])"
      "df_column ?df ''learning_rate'' ! i = Some (Num (learning_rate tr))"
      "df_column ?df ''batch_size'' ! i = Some (Num (of_int (batch_size tr)))"
      "df_column ?df ''alpha'' ! i = Some (Num 1)"
      using keys by (simp_all add: cell [OF i] r objective_params_cells)
    have c: "\<forall>c \<in> set (fst ?df). c \<notin> ?keys \<longrightarrow> df_column ?df c ! i = None"
      by (simp add: cell [OF i] r objective_params_other)
    have d: "distinct (map (\<lambda>j. log_file opt (fst j)) new) \<longrightarrow>
           ?files2 (log_file opt (fst (new ! i)))
             = Some (Text (error_message ext (fst (new ! i)) ?p e))"
    proof
      assume d: "distinct (map (\<lambda>j. log_file opt (fst j)) new)"
      have "(fst (new ! i), Inl e) \<in> set new"
        using i len e by (metis nth_mem prod.collapse)
      from failure_logs_written [OF d this]
      have "?files1 (log_file opt (fst (new ! i)))
          = Some (Text (error_message ext (fst (new ! i)) ?p e))" .
      moreover have "log_file opt (fst (new ! i))
          \<noteq> trial_file (output_trials_dir opt) k (number tr)"
        using trial_file_not_log_file by metis
      ultimately show "?files2 (log_file opt (fst (new ! i)))
          = Some (Text (error_message ext (fst (new ! i)) ?p e))"
        by simp
    qed
    from a keys b c d show ?thesis
      by (intro conjI)
  qed
  have succeeded: "snd ?df ! i = map (map_of r) (fst ?df)
      \<and> fst ` set r \<subseteq> set (fst ?df)
      \<and> (\<forall>c \<in> set (fst ?df). df_column ?df c ! i = map_of r c)"
    if i: "i < ?n" and r: "snd (new ! i) = Inr r" for i r
  proof -
    have "row_of_outcome ?p (snd (new ! i)) = r"
      using r by (simp add: row_of_outcome_def)
    with row [OF i] columns [OF i] cell [OF i] show ?thesis
      by simp
  qed
  have failed_all: "\<forall>i < ?n. \<forall>e. snd (new ! i) = Inl e \<longrightarrow>
      snd ?df ! i = map (map_of ?p) (fst ?df)
      \<and> ?keys \<subseteq> set (fst ?df)
      \<and> df_column ?df ''k'' ! i = Some (Num (of_int k))
      \<and> df_column ?df ''n_hidden'' ! i = Some (Tup [n_hidden_1 tr, n_hidden_2 tr])
      \<and> df_column ?df ''learning_rate'' ! i = Some (Num (learning_rate tr))
      \<and> df_column ?df ''batch_size'' ! i = Some (Num (of_int (batch_size tr)))
      \<and> df_column ?df ''alpha'' ! i = Some (Num 1)
      \<and> (\<forall>c \<in> set (fst ?df). c \<notin> ?keys \<longrightarrow> df_column ?df c ! i = None)
      \<and> (distinct (map (\<lambda>j. log_file opt (fst j)) new) \<longrightarrow>
           ?files2 (log_file opt (fst (new ! i)))
             = Some (Text (error_message ext (fst (new ! i)) ?p e)))"
  proof (intro allI impI)
    fix i e assume "i < ?n" "snd (new ! i) = Inl e"
    then show "snd ?df ! i = map (map_of ?p) (fst ?df)
      \<and> ?keys \<subseteq> set (fst ?df)
      \<and> df_column ?df ''k'' ! i = Some (Num (of_int k))
      \<and> df_column ?df ''n_hidden'' ! i = Some (Tup [n_hidden_1 tr, n_hidden_2 tr])
      \<and> df_column ?df ''learning_rate'' ! i = Some (Num (learning_rate tr))
      \<and> df_column ?df ''batch_size'' ! i = Some (Num (of_int (batch_size tr)))
      \<and> df_column ?df ''alpha'' ! i = Some (Num 1)
      \<and> (\<forall>c \<in> set (fst ?df). c \<notin> ?keys \<longrightarrow> df_column ?df c ! i = None)
      \<and> (distinct (map (\<lambda>j. log_file opt (fst j)) new) \<longrightarrow>
           ?files2 (log_file opt (fst (new ! i)))
             = Some (Text (error_message ext (fst (new ! i)) ?p e)))"
      by (rule failed)
  qed
  have succeeded_all: "\<forall>i < ?n. \<forall>r. snd (new ! i) = Inr r \<longrightarrow>
      snd ?df ! i = map (map_of r) (fst ?df)
      \<and> fst ` set r \<subseteq> set (fst ?df)
      \<and> (\<forall>c \<in> set (fst ?df). df_column ?df c ! i = map_of r c)"
  proof (intro allI impI)
    fix i r assume "i < ?n" "snd (new ! i) = Inr r"
    then show "snd ?df ! i = map (map_of r) (fst ?df)
      \<and> fst ` set r \<subseteq> set (fst ?df)
      \<and> (\<forall>c \<in> set (fst ?df). df_column ?df c ! i = map_of r c)"
      by (rule succeeded)
  qed
  show ?thesis
    apply (rule exI [of _ score])
    apply (rule exI [of _ ?files2])
    apply (rule exI [of _ w1])
    apply (rule exI [of _ new])
    apply (rule exI [of _ ?df])
    apply (rule conjI, rule obj)
    apply (rule conjI, rule len)
    apply (rule conjI, rule jobs)
    apply (rule conjI, rule tfile)
    apply (rule conjI, rule table)
    apply (rule conjI, rule rows)
    apply (rule conjI, rule untouched)
    apply (rule conjI, rule failed_all)
    apply (rule succeeded_all)
    done
qed


theorem objective_failure_containment_witness:
  "\<exists>score files'.
     objective example_ext example_optimizer3 example_trial 2 [[1], [2]] None Map.empty
         example_world
       = Inr (score, files', [],
              [(''job-a'', Inr ((''prediction_strength_diff'', Num 2)
                                  # objective_params example_trial 2)),
               (''job-b'', Inl (RuntimeError ''forced'')),
               (''job-c'', Inr ((''prediction_strength_diff'', Num 0)
                                  # objective_params example_trial 2))])
     \<and> files' ''out/csv_trials/k2_trial0.csv''
         = Some (Csv ([''prediction_strength_diff'', ''k'', ''n_hidden'', ''learning_rate'',
                       ''batch_size'', ''alpha''],
                      [[Some (Num 2), Some (Num 2), Some (Tup [32, 8]), Some (Num (1 / 1000)),
                        Some (Num 16), Some (Num 1)],
                       [None, Some (Num 2), Some (Tup [32, 8]), Some (Num (1 / 1000)),
                        Some (Num 16), Some (Num 1)],
                       [Some (Num 0), Some (Num 2), Some (Tup [32, 8]), Some (Num (1 / 1000)),
                        Some (Num 16), Some (Num 1)]]))
     \<and> files' ''out/failed_jobs/job-b.log''
         = Some (Text (''Job failed: job-b and job_params_dict={...}'' @ [CHR 0x0A]
              @ ''Traceback (most recent call last): RuntimeError: forced''))
     \<and> files' ''out/failed_jobs/job-a.log'' = None"
proof -
  let ?p = "objective_params example_trial 2"
  let ?H = "[(''job-a'', Inr ((''prediction_strength_diff'', Num 2) # ?p)),
             (''job-b'', Inl (RuntimeError ''forced'')),
             (''job-c'', Inr ((''prediction_strength_diff'', Num 0) # ?p))]"
  have exc: "\<forall>j e w'. job_run example_ext j = (Inl e, w') \<longrightarrow> is_Exception e"
    by (auto simp: example_ext_def split: if_splits)
  have num: "\<forall>j r w' t. job_run example_ext j = (Inr r, w') \<longrightarrow>
                map_of r ''prediction_strength_diff'' \<noteq> Some (Tup t)"
    by (auto simp: example_ext_def split: if_splits)
  have k: "(0::int) \<le> 2" "0 \<le> number example_trial"
    by (simp_all add: example_trial_def)
  have n: "nat (n_repeats example_optimizer3) = 3"
    by (simp add: example_optimizer3_def VADERBayesianOptimizer_def)
  from objective_failure_containment [OF exc num k, of example_optimizer3 "[[1], [2]]" None
      Map.empty example_world]
  obtain score files' w' history df where
    obj: "objective example_ext example_optimizer3 example_trial 2 [[1], [2]] None Map.empty
         example_world = Inr (score, files', w', history)"
    and tf: "files' (trial_file (output_trials_dir example_optimizer3) 2 (number example_trial))
         = Some (Csv df)"
    and table: "df = DataFrame (map (\<lambda>h. case snd h of Inl e \<Rightarrow> ?p | Inr r \<Rightarrow> r) history)"
    and untouched: "\<forall>p. p \<noteq> trial_file (output_trials_dir example_optimizer3) 2
                            (number example_trial)
             \<and> p \<notin> (\<lambda>h. log_file example_optimizer3 (fst h)) ` {h \<in> set history. isl (snd h)} \<longrightarrow>
             files' p = Map.empty p"
    and failed: "\<forall>i < nat (n_repeats example_optimizer3). \<forall>e. snd (history ! i) = Inl e \<longrightarrow>
           snd df ! i = map (map_of ?p) (fst df)
           \<and> {''k'', ''n_hidden'', ''learning_rate'', ''batch_size'', ''alpha''} \<subseteq> set (fst df)
           \<and> df_column df ''k'' ! i = Some (Num (of_int 2))
           \<and> df_column df ''n_hidden'' ! i
               = Some (Tup [n_hidden_1 example_trial, n_hidden_2 example_trial])
           \<and> df_column df ''learning_rate'' ! i = Some (Num (learning_rate example_trial))
           \<and> df_column df ''batch_size'' ! i = Some (Num (of_int (batch_size example_trial)))
           \<and> df_column df ''alpha'' ! i = Some (Num 1)
           \<and> (\<forall>c \<in> set (fst df).
                 c \<notin> {''k'', ''n_hidden'', ''learning_rate'', ''batch_size'', ''alpha''} \<longrightarrow>
                 df_column df c ! i = None)
           \<and> (distinct (map (\<lambda>j. log_file example_optimizer3 (fst j)) history) \<longrightarrow>
                files' (log_file example_optimizer3 (fst (history ! i)))
                  = Some (Text (error_message example_ext (fst (history ! i)) ?p e)))"
    by (elim exE conjE) (rule that, assumption+)
  from objective_history [OF example_loop obj] have h: "history = ?H" "w' = []"
    by simp_all
  have d: "distinct (map (\<lambda>j. log_file example_optimizer3 (fst j)) ?H)"
    by (simp add: log_file_def os_path_join_def example_optimizer3_def
        VADERBayesianOptimizer_def)
  have path: "trial_file (output_trials_dir example_optimizer3) 2 (number example_trial)
      = ''out/csv_trials/k2_trial0.csv''"
    by code_simp
  have lf: "log_file example_optimizer3 ''job-b'' = ''out/failed_jobs/job-b.log''"
    by code_simp
  have msg: "error_message example_ext ''job-b'' ?p (RuntimeError ''forced'')
      = ''Job failed: job-b and job_params_dict={...}'' @ [CHR 0x0A]
              @ ''Traceback (most recent call last): RuntimeError: forced''"
    by (simp add: error_message_def example_ext_def)
  have df: "df = ([''prediction_strength_diff'', ''k'', ''n_hidden'', ''learning_rate'',
                       ''batch_size'', ''alpha''],
                      [[Some (Num 2), Some (Num 2), Some (Tup [32, 8]), Some (Num (1 / 1000)),
                        Some (Num 16), Some (Num 1)],
                       [None, Some (Num 2), Some (Tup [32, 8]), Some (Num (1 / 1000)),
                        Some (Num 16), Some (Num 1)],
                       [Some (Num 0), Some (Num 2), Some (Tup [32, 8]), Some (Num (1 / 1000)),
                        Some (Num 16), Some (Num 1)]])"
    unfolding table h
    by (simp add: DataFrame_def objective_params_def example_trial_def)
  have failed_jobs: "{h \<in> set ?H. isl (snd h)} = {(''job-b'', Inl (RuntimeError ''forced''))}"
    by auto
  have "files' ''out/failed_jobs/job-a.log'' = Map.empty ''out/failed_jobs/job-a.log''"
    using untouched [rule_format, of "''out/failed_jobs/job-a.log''"]
    unfolding h failed_jobs path by (simp add: lf)
  then have a: "files' ''out/failed_jobs/job-a.log'' = None"
    by simp
  from failed [rule_format, of 1 "RuntimeError ''forced''"] h d n
  have "files' (log_file example_optimizer3 ''job-b'')
       = Some (Text (error_message example_ext ''job-b'' ?p (RuntimeError ''forced'')))"
    by simp
  with obj h tf df path lf msg a show ?thesis
    by (intro exI [of _ score] exI [of _ files']) simp
qed

section \<open>The consensus aggregate\<close>




section \<open>Seeds across folds\<close>

text \<open>
  Claim C2 is about the seed of repeat \<open>i\<close> of a consensus run. The code reassigns
  \<^verbatim>\<open>self.seed\<close> in the loop of \<^verbatim>\<open>_consensus_clustering\<close>, and the job keeps the
  reassigned seed from one fold to the next. For the job with base seed 7, two consensus
  repeats and the two folds of its split, the models are built with the seeds 70 and 701
  in the first fold (and 701 for the reference clustering), and with 7010 and 70101 in the
  second fold (and 70101 for the reference clustering): repeat 0 has seed 70 in one fold
  and 7010 in the other. The loop of \<^verbatim>\<open>objective\<close> derives its seeds from the
  unchanged base seed: 7200, 7201, 7202 for K = 2 and trial 0. A base seed that is
  \<^verbatim>\<open>None\<close> stays \<^verbatim>\<open>None\<close> in every repeat, and so does the base seed 0.
\<close>

theorem consensus_seed_mutation:
  "KFold_split (n_splits example_full_job) [2, 0, 3, 1] (length (data example_full_job))
     = Inr [([1, 3], [0, 2]), ([0, 2], [1, 3])]
   \<and> map_sum id (\<lambda>(results, job'). (world job', seed job'))
        (snd (cv_folds (cv_fold_step example_models) [([1, 3], [0, 2]), ([0, 2], [1, 3])]
                example_full_job [] []))
     = Inr ([Some 70, Some 701, Some 701, Some 7010, Some 70101, Some 70101], Some 70101)
   \<and> map (\<lambda>i. objective_seed (Some 7) 2 0 i) [0, 1, 2]
     = [Inr (Some 7200), Inr (Some 7201), Inr (Some 7202)]
   \<and> consensus_seed None 0 = Inr None \<and> consensus_seed None 1 = Inr None
   \<and> consensus_seed (Some 0) 0 = Inr None"
proof -
  have split: "KFold_split (n_splits example_full_job) [2, 0, 3, 1] (length (data example_full_job))
     = Inr [([1, 3], [0, 2]), ([0, 2], [1, 3])]"
    by code_simp
  have sibling: "map (\<lambda>i. objective_seed (Some 7) 2 0 i) [0, 1, 2]
     = [Inr (Some 7200), Inr (Some 7201), Inr (Some 7202)]"
    by (simp add: objective_seed_def str_int_def str_nat.simps digit_char_def
        int_of_str_def is_digit_def digit_val_def)
  from split example_cv_folds sibling show ?thesis
    by (simp add: consensus_seed_def)
qed

section \<open>The effective K of a fold\<close>

text \<open>
  Claim C9, as amended. Let every fitted model assign each sample of its training data
  one of the cluster ids \<open>ids\<close>, of which there are at most \<open>K\<close>, and let the training set
  of the fold be non-empty. When the fold step returns, the \<^verbatim>\<open>effective_k\<close> of the Fold
  Result lies between 1 and \<open>K\<close>. On the path of a single fit (no consensus repeats) it is
  the number of distinct labels that the fitted model gives the training samples. On the
  consensus path (\<open>n_consensus > 1\<close>) it is the arithmetic mean, over the \<open>n_consensus\<close>
  repeats, of the numbers of distinct labels that the models fitted by the repeats give
  the training samples; this mean need not be a whole number.
\<close>

theorem fold_result_effective_k:
  assumes model: "\<forall>w x wa nh k sd lr bs al ne m w'.
        VADER ext w x wa nh k sd lr bs al ne = (Inr m, w') \<longrightarrow>
        length (cluster m x) = length x \<and> set (cluster m x) \<subseteq> ids"
    and ids: "finite ids" "card ids \<le> K"
    and train: "x_train \<noteq> []"
    and step: "cv_fold_step ext job x_train x_val w_train w_val = Inr (result, job')"
  shows "\<exists>effective_k. map_of result ''effective_k'' = Some (Some effective_k)
     \<and> 1 \<le> effective_k \<and> effective_k \<le> real K
     \<and> (\<not> 1 < n_consensus job \<longrightarrow>
          (\<exists>m job1. fit_vader ext job x_train (Inl w_train) = Inr (m, job1)
             \<and> effective_k = real (card (set (cluster m x_train)))))
     \<and> (1 < n_consensus job \<longrightarrow>
          (\<exists>repeats job1.
             consensus_repeats ext x_train x_val w_train [0..<nat (n_consensus job)] job []
               = Inr (repeats, job1)
             \<and> length repeats = nat (n_consensus job)
             \<and> list_all (\<lambda>(y, ek, trl, tll, terl, tell).
                   \<exists>j m j'. fit_vader ext j x_train (Inl w_train) = Inr (m, j')
                     \<and> ek = real (card (set (cluster m x_train)))) repeats
             \<and> effective_k = sum_list (map (\<lambda>(y, ek, trl, tll, terl, tell). ek) repeats)
                               / real (nat (n_consensus job))))"
proof -
  from cv_fold_step_effective_k [OF step] obtain y ek rest j1 where
    c: "(if n_consensus job \<noteq> 0 \<and> 1 < n_consensus job
      then consensus_clustering ext job x_train x_val w_train
      else single_clustering ext job x_train x_val w_train) = Inr ((y, ek, rest), j1)"
    and res: "map_of result ''effective_k'' = Some (Some ek)"
    by blast
  have bounds: "1 \<le> ek \<and> ek \<le> real K"
  proof (cases "1 < n_consensus job")
    case True
    with c have "consensus_clustering ext job x_train x_val w_train = Inr ((y, ek, rest), j1)"
      by simp
    from consensus_clustering_bounds [OF model ids train this] show ?thesis .
  next
    case False
    with c have "single_clustering ext job x_train x_val w_train = Inr ((y, ek, rest), j1)"
      by simp
    from single_clustering_bounds [OF model ids train this] show ?thesis .
  qed
  have count: "\<exists>m job1. fit_vader ext job x_train (Inl w_train) = Inr (m, job1)
             \<and> ek = real (card (set (cluster m x_train)))"
    if "\<not> 1 < n_consensus job"
  proof -
    from that c have "single_clustering ext job x_train x_val w_train = Inr ((y, ek, rest), j1)"
      by simp
    from single_clustering_effective_k [OF this] show ?thesis by blast
  qed
  have mean: "\<exists>repeats job1.
             consensus_repeats ext x_train x_val w_train [0..<nat (n_consensus job)] job []
               = Inr (repeats, job1)
             \<and> length repeats = nat (n_consensus job)
             \<and> list_all (\<lambda>(y, ek, trl, tll, terl, tell).
                   \<exists>j m j'. fit_vader ext j x_train (Inl w_train) = Inr (m, j')
                     \<and> ek = real (card (set (cluster m x_train)))) repeats
             \<and> ek = sum_list (map (\<lambda>(y, ek, trl, tll, terl, tell). ek) repeats)
                               / real (nat (n_consensus job))"
    if "1 < n_consensus job"
  proof -
    from that c have "consensus_clustering ext job x_train x_val w_train = Inr ((y, ek, rest), j1)"
      by simp
    from consensus_clustering_repeats [OF this] show ?thesis .
  qed
  show ?thesis
    apply (rule exI [of _ ek])
    apply (rule conjI, rule res)
    apply (rule conjI, rule bounds [THEN conjunct1])
    apply (rule conjI, rule bounds [THEN conjunct2])
    apply (rule conjI)
     apply (rule impI, erule count)
    apply (rule impI, erule mean)
    done
qed


theorem fold_result_effective_k_witness:
  "(\<exists>result job'.
     cv_fold_step example_models (example_full_job\<lparr>n_consensus := 1\<rparr>)
        [[- 2], [3]] [[1], [- 4]] None None = Inr (result, job')
     \<and> map_of result ''effective_k'' = Some (Some 2))
   \<and> (\<exists>result job'.
     cv_fold_step example_seeded_models example_full_job
        [[- 2], [3], [1]] [[- 4]] None None = Inr (result, job')
     \<and> map_of result ''effective_k'' = Some (Some (5 / 2)))"
proof
  let ?job = "example_full_job\<lparr>n_consensus := 1\<rparr>"
  have model: "\<forall>w x wa nh k sd lr bs al ne m w'.
        VADER example_models w x wa nh k sd lr bs al ne = (Inr m, w') \<longrightarrow>
        length (cluster m x) = length x \<and> set (cluster m x) \<subseteq> {0, 1}"
    by (auto simp: example_models_def example_vader_def)
  have ids: "finite {0, 1 :: int}" "card {0, 1 :: int} \<le> 2"
    by simp_all
  have train: "[[- 2], [3]] \<noteq> ([] :: ndarray)"
    by simp
  have p: "params_dict ?job = params_dict example_full_job" "n_consensus ?job = 1"
    by simp_all
  from example_fold_step_single [OF p] obtain result job' where
    step: "cv_fold_step example_models ?job [[- 2], [3]] [[1], [- 4]] None None
       = Inr (result, job')"
    by blast
  from fold_result_effective_k [OF model ids train step] p(2) obtain effective_k m job1 where
    res: "map_of result ''effective_k'' = Some (Some effective_k)"
    and fit: "fit_vader example_models ?job [[- 2], [3]] (Inl None) = Inr (m, job1)"
    and ek: "effective_k = real (card (set (cluster m [[- 2], [3]])))"
    by auto
  from fit example_fit [OF p(1), of "[[- 2], [3]]" "Inl None"] have "m = example_vader"
    by simp
  with ek have "effective_k = 2"
    by (simp add: example_labels)
  with step res show "\<exists>result job'.
     cv_fold_step example_models ?job [[- 2], [3]] [[1], [- 4]] None None = Inr (result, job')
     \<and> map_of result ''effective_k'' = Some (Some 2)"
    by blast
next
  have model: "\<forall>w x wa nh k sd lr bs al ne m w'.
        VADER example_seeded_models w x wa nh k sd lr bs al ne = (Inr m, w') \<longrightarrow>
        length (cluster m x) = length x \<and> set (cluster m x) \<subseteq> {0, 1, 2}"
    by (auto simp: example_seeded_models_def example_models_def example_vader_def
        example_vader3_def split: if_splits)
  have ids: "finite {0, 1, 2 :: int}" "card {0, 1, 2 :: int} \<le> 3"
    by simp_all
  have train: "[[- 2], [3], [1]] \<noteq> ([] :: ndarray)"
    by simp
  have n: "1 < n_consensus example_full_job" "nat (n_consensus example_full_job) = 2"
    by (simp_all add: example_full_job_def)
  from seeded_fold_step obtain result job' where
    step: "cv_fold_step example_seeded_models example_full_job [[- 2], [3], [1]] [[- 4]]
       None None = Inr (result, job')"
    by blast
  from fold_result_effective_k [OF model ids train step] n(1) obtain effective_k repeats job1
    where res: "map_of result ''effective_k'' = Some (Some effective_k)"
    and rep: "consensus_repeats example_seeded_models [[- 2], [3], [1]] [[- 4]] None
           [0..<nat (n_consensus example_full_job)] example_full_job [] = Inr (repeats, job1)"
    and ek: "effective_k = sum_list (map (\<lambda>(y, ek, trl, tll, terl, tell). ek) repeats)
                               / real (nat (n_consensus example_full_job))"
    by auto
  from rep seeded_repeats have
    "repeats = [([1], 2, 2, 1 / 2, 4, 1), ([1], 3, 2, 1 / 2, 4, 1)]"
    by auto
  with ek n(2) have "effective_k = 5 / 2"
    by simp
  with step res show "\<exists>result job'.
     cv_fold_step example_seeded_models example_full_job
        [[- 2], [3], [1]] [[- 4]] None None = Inr (result, job')
     \<and> map_of result ''effective_k'' = Some (Some (5 / 2))"
    by blast
qed

text \<open>
  The claim as stated fails on the consensus path. The example job has the base seed 7
  and two consensus repeats, which fit with the seeds 70 and 701; the model fitted with
  the seed 70 gives the three training samples two distinct labels and the model fitted
  with the seed 701 gives them three, every label being one of the three cluster ids 0,
  1 and 2. The \<^verbatim>\<open>effective_k\<close> of the Fold Result is \<open>5 / 2\<close>, which is the number of
  distinct labels of no fit.
\<close>

theorem fold_result_effective_k_counterexample:
  "(\<exists>result job'.
     cv_fold_step example_seeded_models example_full_job
        [[- 2], [3], [1]] [[- 4]] None None = Inr (result, job')
     \<and> map_of result ''effective_k'' = Some (Some (5 / 2)))
   \<and> (5 / 2 :: real) \<notin> \<nat>
   \<and> cluster example_vader [[- 2], [3], [1]] = [1, 0, 0]
   \<and> cluster example_vader3 [[- 2], [3], [1]] = [1, 2, 0]
   \<and> (\<forall>x. length (cluster example_vader x) = length x
          \<and> set (cluster example_vader x) \<subseteq> {0, 1, 2})
   \<and> (\<forall>x. length (cluster example_vader3 x) = length x
          \<and> set (cluster example_vader3 x) \<subseteq> {0, 1, 2})"
proof -
  have "(5 / 2 :: real) \<notin> \<nat>"
  proof
    assume "(5 / 2 :: real) \<in> \<nat>"
    then obtain n :: nat where "(5 / 2 :: real) = real n"
      by (auto elim: Nats_cases)
    then have "real 5 = real (2 * n)"
      by simp
    then have "5 = 2 * n"
      by (simp only: of_nat_eq_iff)
    then show False
      by presburger
  qed
  moreover have "\<forall>x. length (cluster example_vader x) = length x
          \<and> set (cluster example_vader x) \<subseteq> {0, 1, 2}"
    by (auto simp: example_vader_def)
  moreover have "\<forall>x. length (cluster example_vader3 x) = length x
          \<and> set (cluster example_vader3 x) \<subseteq> {0, 1, 2}"
    by (auto simp: example_vader_def example_vader3_def)
  ultimately show ?thesis
    using seeded_fold_step seeded_labels(3,4) by simp
qed

end
